theory Spec2Isabelle
  imports Main "HOL-Library.AList" "HOL-Library.Word"
begin

section \<open>Data model\<close>

text \<open>
  A Python \<open>str\<close> is a sequence of Unicode code points and a \<open>bytes\<close> object a
  sequence of octets. Target addresses are the stripped lines of the config file, so
  they are \<open>str\<close> values.
\<close>

type_synonym pystr = "nat list"
type_synonym bytes = "8 word list"

text \<open>
  The exceptions the relay meets. \<open>error\<close> lists subclasses of Python's
  \<open>Exception\<close>, which is what \<open>except Exception\<close> catches. A suspended
  \<open>await\<close> can moreover be cancelled; \<open>CancelledError\<close> derives from
  \<open>BaseException\<close> only and passes through \<open>except Exception\<close>.
\<close>

datatype error =
    ConnectionResetError
  | BrokenPipeError
  | ConnectionRefusedError
  | ConnectionAbortedError
  | TimeoutError
  | OSError
  | FileNotFoundError
  | UnicodeDecodeError
  | RuntimeError
  | OtherException string

datatype exn = Error error | CancelledError

text \<open>A connection is the pair \<open>(reader, writer)\<close> that \<open>asyncio.open_connection\<close> returns.\<close>

datatype conn = Conn (reader: nat) (writer: nat)

text \<open>The messages handed to \<open>log_debug\<close>, one constructor per format string.\<close>

datatype logmsg =
    ConnectedToTarget pystr "int option"
  | FailedToConnect pystr "int option" error
  | ConnectionMaintenance
  | DataForwarded pystr "int option"
  | ConnectionIsClosed pystr
  | FailedToForward pystr "int option" error
  | ReceivedFromClient bytes
  | ErrorHandlingClient error
  | ClientConnectionClosed
  | NewClientConnected
  | ListeningOnPort "int option"
  | ShuttingDownServer
  | ErrorClosingConnection
  | WaitingForData
  | ReceivedFrom pystr bytes

text \<open>
  Everything the process does to the outside world is recorded, in program order, as an
  event: what is printed, which sockets are dialled, written, flushed and closed, which
  tasks are created.
\<close>

datatype event =
    Print logmsg
  | OpenConnection pystr "int option" nat
  | WriterWrite nat bytes
  | WriterDrain nat
  | WriterClose nat
  | WriterWaitClosed nat
  | ReaderRead nat nat
  | CreateReconnectTask
  | StartServer pystr "int option"
  | ServeForever
  | InstallSigintHandler
  | LoopStop
  | TimeSleep nat
  | SysExit
  | SockRecvFrom nat
  | SendTo pystr "int option" bytes

text \<open>
  The module globals of \<open>tcprelay.py\<close>. \<open>target_connections\<close> is a \<open>dict\<close>: its
  iteration order is insertion order, so it is an association list; a value \<open>None\<close>
  is a disconnected target and \<open>Some c\<close> a connected one.
\<close>

record world =
  target_connections :: "(pystr \<times> conn option) list"
  running :: bool
  PORT :: "int option"
  trace :: "event list"

text \<open>
  The answers of the network to the calls the relay makes. They are inputs of the
  model: \<open>net_open_connection ip port t\<close> is the outcome of
  \<open>asyncio.wait_for(asyncio.open_connection(ip, port), timeout=t)\<close>, where exceeding
  the timeout is the outcome \<open>Inl (Error TimeoutError)\<close>.
\<close>

record net =
  net_open_connection :: "pystr \<Rightarrow> int option \<Rightarrow> nat \<Rightarrow> exn + conn"
  net_write :: "nat \<Rightarrow> bytes \<Rightarrow> error option"
  net_drain :: "nat \<Rightarrow> exn option"
  net_close :: "nat \<Rightarrow> error option"
  net_wait_closed :: "nat \<Rightarrow> exn option"
  net_start_server :: "pystr \<Rightarrow> int option \<Rightarrow> exn option"

text \<open>A coroutine run to completion: the exception it raises, if any, and the new state.\<close>

type_synonym task = "world \<Rightarrow> exn option \<times> world"

section \<open>Python primitives\<close>

definition emit :: "event \<Rightarrow> world \<Rightarrow> world" where
  "emit e w = w\<lparr>trace := trace w @ [e]\<rparr>"

definition log_debug :: "logmsg \<Rightarrow> bool \<Rightarrow> world \<Rightarrow> world" where
  "log_debug msg debug w = (if debug then emit (Print msg) w else w)"

text \<open>\<open>d[k]\<close> and \<open>d[k] = v\<close>: an existing key keeps its position, a new key goes last.\<close>

definition dict_get :: "('k \<times> 'v) list \<Rightarrow> 'k \<Rightarrow> 'v option" where
  "dict_get d k = map_of d k"

fun dict_set :: "('k \<times> 'v) list \<Rightarrow> 'k \<Rightarrow> 'v \<Rightarrow> ('k \<times> 'v) list" where
  "dict_set [] k v = [(k, v)]"
| "dict_set ((k', v') # d) k v =
     (if k' = k then (k', v) # d else (k', v') # dict_set d k v)"

definition set_target :: "pystr \<Rightarrow> conn option \<Rightarrow> world \<Rightarrow> world" where
  "set_target ip c w = w\<lparr>target_connections := dict_set (target_connections w) ip c\<rparr>"

text \<open>
  \<open>await asyncio.gather(*tasks)\<close>: every task runs to completion, here in the order of
  the list; the first exception raised by a task is raised to the awaiter, and the other
  tasks are not cancelled.
\<close>

fun gather :: "task list \<Rightarrow> task" where
  "gather [] w = (None, w)"
| "gather (t # ts) w =
     (case t w of (r, w1) \<Rightarrow>
        (case gather ts w1 of (rs, w2) \<Rightarrow>
           ((case r of Some e \<Rightarrow> Some e | None \<Rightarrow> rs), w2)))"

text \<open>
  \<open>bytes.decode()\<close> raises \<open>UnicodeDecodeError\<close> unless the bytes are well-formed
  UTF-8: one of the byte sequences of the Unicode standard's table of well-formed
  sequences, repeated.
\<close>

definition cont_byte :: "8 word \<Rightarrow> bool" where
  "cont_byte b = (0x80 \<le> b \<and> b \<le> 0xBF)"

fun utf8_valid :: "bytes \<Rightarrow> bool" where
  "utf8_valid [] = True"
| "utf8_valid (b # bs) =
     (if b \<le> 0x7F then utf8_valid bs
      else if 0xC2 \<le> b \<and> b \<le> 0xDF then
        (case bs of
           c1 # r \<Rightarrow> cont_byte c1 \<and> utf8_valid r
         | _ \<Rightarrow> False)
      else if 0xE0 \<le> b \<and> b \<le> 0xEF then
        (case bs of
           c1 # c2 # r \<Rightarrow>
             (if b = 0xE0 then 0xA0 \<le> c1 \<and> c1 \<le> 0xBF
              else if b = 0xED then 0x80 \<le> c1 \<and> c1 \<le> 0x9F
              else cont_byte c1)
             \<and> cont_byte c2 \<and> utf8_valid r
         | _ \<Rightarrow> False)
      else if 0xF0 \<le> b \<and> b \<le> 0xF4 then
        (case bs of
           c1 # c2 # c3 # r \<Rightarrow>
             (if b = 0xF0 then 0x90 \<le> c1 \<and> c1 \<le> 0xBF
              else if b = 0xF4 then 0x80 \<le> c1 \<and> c1 \<le> 0x8F
              else cont_byte c1)
             \<and> cont_byte c2 \<and> cont_byte c3 \<and> utf8_valid r
         | _ \<Rightarrow> False)
      else False)"

section \<open>The config file\<close>

text \<open>
  \<open>open(config_file, "r")\<close> reads text with universal newlines: \<open>\r\n\<close> and a lone
  \<open>\r\<close> arrive as \<open>\n\<close>. Iterating the file yields its lines, each with its
  terminating \<open>\n\<close> (the last line may lack one).
\<close>

fun universal_newlines :: "pystr \<Rightarrow> pystr" where
  "universal_newlines [] = []"
| "universal_newlines [c] = (if c = 13 then [10] else [c])"
| "universal_newlines (c # c' # cs) =
     (if c = 13 \<and> c' = 10 then 10 # universal_newlines cs
      else if c = 13 then 10 # universal_newlines (c' # cs)
      else c # universal_newlines (c' # cs))"

fun file_lines :: "pystr \<Rightarrow> pystr \<Rightarrow> pystr list" where
  "file_lines cur [] = (if cur = [] then [] else [cur])"
| "file_lines cur (c # cs) =
     (if c = 10 then (cur @ [c]) # file_lines [] cs else file_lines (cur @ [c]) cs)"

text \<open>The code points \<open>str.strip()\<close> removes: those for which \<open>str.isspace\<close> holds.\<close>

definition py_isspace :: "nat \<Rightarrow> bool" where
  "py_isspace c =
     ((9 \<le> c \<and> c \<le> 13) \<or> (28 \<le> c \<and> c \<le> 32) \<or> c = 0x85 \<or> c = 0xA0 \<or> c = 0x1680
      \<or> (0x2000 \<le> c \<and> c \<le> 0x200A) \<or> c = 0x2028 \<or> c = 0x2029 \<or> c = 0x202F
      \<or> c = 0x205F \<or> c = 0x3000)"

definition strip :: "pystr \<Rightarrow> pystr" where
  "strip s = rev (dropWhile py_isspace (rev (dropWhile py_isspace s)))"

text \<open>The file system, as far as \<open>open\<close> sees it: the decoded text of each file that exists.\<close>

type_synonym filesystem = "string \<Rightarrow> pystr option"

definition read_ips_from_config :: "filesystem \<Rightarrow> string \<Rightarrow> error + pystr list" where
  "read_ips_from_config fs config_file =
     (case fs config_file of
        None \<Rightarrow> Inl FileNotFoundError
      | Some text \<Rightarrow>
          Inr (map strip (filter (\<lambda>line. strip line \<noteq> [])
                 (file_lines [] (universal_newlines text)))))"

section \<open>The TCP relay\<close>

subsection \<open>Connecting\<close>

definition connect_to_target :: "net \<Rightarrow> pystr \<Rightarrow> bool \<Rightarrow> task" where
  "connect_to_target nw ip debug w =
     (let w1 = emit (OpenConnection ip (PORT w) 5) w in
      case net_open_connection nw ip (PORT w) 5 of
        Inr c \<Rightarrow> (None, log_debug (ConnectedToTarget ip (PORT w)) debug (set_target ip (Some c) w1))
      | Inl (Error e) \<Rightarrow> (None, log_debug (FailedToConnect ip (PORT w) e) debug w1)
      | Inl CancelledError \<Rightarrow> (Some CancelledError, w1))"

text \<open>
  The loop of \<open>connect_to_targets\<close> over the keys of the dict: a key whose value is
  not \<open>None\<close> is skipped, the others get a task.
\<close>

fun connect_tasks :: "net \<Rightarrow> bool \<Rightarrow> (pystr \<times> conn option) list \<Rightarrow> pystr list \<Rightarrow> task list" where
  "connect_tasks nw debug d [] = []"
| "connect_tasks nw debug d (ip # ips) =
     (if dict_get d ip \<noteq> Some None then connect_tasks nw debug d ips
      else connect_to_target nw ip debug # connect_tasks nw debug d ips)"

definition connect_to_targets :: "net \<Rightarrow> bool \<Rightarrow> task" where
  "connect_to_targets nw debug w =
     (let tasks = connect_tasks nw debug (target_connections w) (map fst (target_connections w))
      in if tasks \<noteq> [] then gather tasks w else (None, w))"

text \<open>
  \<open>reconnect_task\<close> loops for as long as \<open>running\<close> holds. The list gives the
  network as it is at each cycle; when it is used up the task is still in its loop.
\<close>

fun reconnect_task :: "net list \<Rightarrow> bool \<Rightarrow> task" where
  "reconnect_task [] debug w = (None, w)"
| "reconnect_task (nw # nws) debug w =
     (if \<not> running w then (None, w)
      else
        (case connect_to_targets nw debug (log_debug ConnectionMaintenance debug w) of
           (Some e, w1) \<Rightarrow> (Some e, w1)
         | (None, w1) \<Rightarrow> reconnect_task nws debug (emit (TimeSleep 10) w1)))"

subsection \<open>Forwarding\<close>

definition forward_to_target :: "net \<Rightarrow> pystr \<Rightarrow> conn \<Rightarrow> bytes \<Rightarrow> bool \<Rightarrow> task" where
  "forward_to_target nw ip c data debug w =
     (let w1 = emit (WriterWrite (writer c) data) w;
          w2 = emit (WriterDrain (writer c)) w1;
          (raised, w3) =
            (case net_write nw (writer c) data of
               Some e \<Rightarrow> (Some (Error e), w1)
             | None \<Rightarrow>
                 (case net_drain nw (writer c) of
                    Some x \<Rightarrow> (Some x, w2)
                  | None \<Rightarrow> (None, log_debug (DataForwarded ip (PORT w)) debug w2)))
      in case raised of
           None \<Rightarrow> (None, w3)
         | Some (Error e) \<Rightarrow>
             if e = ConnectionResetError \<or> e = BrokenPipeError
             then (None, set_target ip None (log_debug (ConnectionIsClosed ip) debug w3))
             else (None, log_debug (FailedToForward ip (PORT w) e) debug w3)
         | Some CancelledError \<Rightarrow> (Some CancelledError, w3))"

fun forward_tasks :: "net \<Rightarrow> bytes \<Rightarrow> bool \<Rightarrow> (pystr \<times> conn option) list \<Rightarrow> task list" where
  "forward_tasks nw data debug [] = []"
| "forward_tasks nw data debug ((ip, None) # items) = forward_tasks nw data debug items"
| "forward_tasks nw data debug ((ip, Some c) # items) =
     forward_to_target nw ip c data debug # forward_tasks nw data debug items"

definition forward_data :: "net \<Rightarrow> bytes \<Rightarrow> bool \<Rightarrow> task" where
  "forward_data nw data debug w =
     (let tasks = forward_tasks nw data debug (target_connections w)
      in if tasks \<noteq> [] then gather tasks w else (None, w))"

subsection \<open>Client sessions\<close>

text \<open>
  What the client does is a script: the outcome of each \<open>reader.read(4096)\<close>, with
  the network as it is while that chunk is forwarded. A script that is used up leaves
  the session suspended in its next read.
\<close>

datatype read_result = ReadReturns bytes | ReadRaises exn

datatype loop_exit = LoopEnded | LoopRaised exn | LoopAwaiting

datatype session = SessionOver "exn option" | SessionAwaiting

text \<open>
  The \<open>while running\<close> loop of \<open>handle_client\<close>. The argument of \<open>log_debug\<close> is
  an f-string holding \<open>data.decode()\<close>; it is evaluated before the call, whatever
  \<open>debug\<close> is.
\<close>

fun client_loop :: "(read_result \<times> net) list \<Rightarrow> conn \<Rightarrow> bool \<Rightarrow> world \<Rightarrow> loop_exit \<times> world" where
  "client_loop [] cl debug w =
     (if \<not> running w then (LoopEnded, w)
      else (LoopAwaiting, emit (ReaderRead (reader cl) 4096) w))"
| "client_loop ((rd, nw) # script) cl debug w =
     (if \<not> running w then (LoopEnded, w)
      else
        (let w1 = emit (ReaderRead (reader cl) 4096) w in
         case rd of
           ReadRaises x \<Rightarrow> (LoopRaised x, w1)
         | ReadReturns data \<Rightarrow>
             if data = [] then (LoopEnded, w1)
             else if \<not> utf8_valid data then (LoopRaised (Error UnicodeDecodeError), w1)
             else
               (case forward_data nw data debug (log_debug (ReceivedFromClient data) debug w1) of
                  (Some x, w2) \<Rightarrow> (LoopRaised x, w2)
                | (None, w2) \<Rightarrow> client_loop script cl debug w2)))"

text \<open>
  The \<open>finally\<close> block: \<open>writer.close()\<close>, \<open>await writer.wait_closed()\<close>, the
  log line. An exception raised inside the block replaces the pending one.
\<close>

definition finally_close :: "net \<Rightarrow> conn \<Rightarrow> bool \<Rightarrow> exn option \<Rightarrow> world \<Rightarrow> session \<times> world" where
  "finally_close nw cl debug pending w =
     (let w1 = emit (WriterClose (writer cl)) w in
      case net_close nw (writer cl) of
        Some e \<Rightarrow> (SessionOver (Some (Error e)), w1)
      | None \<Rightarrow>
          (let w2 = emit (WriterWaitClosed (writer cl)) w1 in
           case net_wait_closed nw (writer cl) of
             Some x \<Rightarrow> (SessionOver (Some x), w2)
           | None \<Rightarrow> (SessionOver pending, log_debug ClientConnectionClosed debug w2)))"

definition handle_client ::
    "(read_result \<times> net) list \<Rightarrow> net \<Rightarrow> conn \<Rightarrow> bool \<Rightarrow> world \<Rightarrow> session \<times> world" where
  "handle_client script nw cl debug w =
     (case client_loop script cl debug w of
        (LoopAwaiting, w1) \<Rightarrow> (SessionAwaiting, w1)
      | (LoopEnded, w1) \<Rightarrow> finally_close nw cl debug None w1
      | (LoopRaised (Error e), w1) \<Rightarrow>
          finally_close nw cl debug None (log_debug (ErrorHandlingClient e) debug w1)
      | (LoopRaised CancelledError, w1) \<Rightarrow> finally_close nw cl debug (Some CancelledError) w1)"

subsection \<open>Startup and shutdown\<close>

definition host_any :: pystr where
  "host_any = [48, 46, 48, 46, 48, 46, 48]"

text \<open>
  The callback \<open>client_connected\<close> that \<open>start_server\<close> hands to
  \<open>asyncio.start_server\<close>; the server calls it for each connection it accepts.
\<close>

definition client_connected ::
    "(read_result \<times> net) list \<Rightarrow> net \<Rightarrow> conn \<Rightarrow> bool \<Rightarrow> world \<Rightarrow> session \<times> world" where
  "client_connected script nw cl debug w =
     handle_client script nw cl debug (log_debug NewClientConnected debug w)"

text \<open>
  What happens while the server serves, in the order in which it happens: a client
  connects and its session runs, or the reconnect task wakes from its sleep and goes
  once round its loop, on the network as it is then.
\<close>

datatype activity =
    ClientConnects "(read_result \<times> net) list" net conn
  | ReconnectWakes net

text \<open>
  \<open>server.serve_forever()\<close>, with the reconnect task beside it. A session is given
  by its script, the network at the time its handle is closed, and its connection;
  sessions are run here one after the other, and what a session raises is not raised to
  \<open>serve_forever\<close>. \<open>alive\<close> says whether the reconnect task is still in its
  loop: it has left it once \<open>running\<close> was false or a pass raised.
\<close>

fun serve_forever :: "activity list \<Rightarrow> bool \<Rightarrow> bool \<Rightarrow> world \<Rightarrow> world" where
  "serve_forever [] debug alive w = w"
| "serve_forever (ClientConnects script nw cl # acts) debug alive w =
     serve_forever acts debug alive (snd (client_connected script nw cl debug w))"
| "serve_forever (ReconnectWakes nw # acts) debug alive w =
     (if alive then
        (case reconnect_task [nw] debug w of
           (r, w1) \<Rightarrow> serve_forever acts debug (r = None \<and> running w) w1)
      else serve_forever acts debug alive w)"

text \<open>
  \<open>start_server\<close>. The task that \<open>asyncio.create_task\<close> schedules gets to run
  as soon as \<open>start_server\<close> suspends, which is in \<open>await asyncio.start_server\<close>,
  before the sockets are bound: there it goes round its loop for the first time, on the
  network \<open>nw1\<close> of that moment, up to its sleep. \<open>start_server\<close> returns only by
  raising; a result \<open>None\<close> here is the server still serving when everything given
  has happened.
\<close>

definition start_server :: "net \<Rightarrow> net \<Rightarrow> bool \<Rightarrow> activity list \<Rightarrow> task" where
  "start_server nw nw1 debug acts w =
     (case connect_to_targets nw debug w of
        (Some x, w1) \<Rightarrow> (Some x, w1)
      | (None, w1) \<Rightarrow>
          (let w2 = emit CreateReconnectTask w1;
               w3 = emit (StartServer host_any (PORT w2)) w2 in
           case reconnect_task [nw1] debug w3 of
             (r, w4) \<Rightarrow>
               (case net_start_server nw host_any (PORT w2) of
                  Some x \<Rightarrow> (Some x, w4)
                | None \<Rightarrow>
                    (None, serve_forever acts debug (r = None \<and> running w3)
                       (emit ServeForever
                          (log_debug (ListeningOnPort (PORT w4)) debug w4))))))"

text \<open>
  The loop of \<open>shutdown_server\<close> over \<open>target_connections.items()\<close>. The
  \<open>writer.wait_closed()\<close> after \<open>writer.close()\<close> is not awaited: it builds a
  coroutine object that never runs, and has no effect.
\<close>

fun close_targets :: "net \<Rightarrow> (pystr \<times> conn option) list \<Rightarrow> world \<Rightarrow> world" where
  "close_targets nw [] w = w"
| "close_targets nw ((ip, None) # items) w = close_targets nw items w"
| "close_targets nw ((ip, Some c) # items) w =
     (let w1 = emit (WriterClose (writer c)) w in
      close_targets nw items
        (case net_close nw (writer c) of
           None \<Rightarrow> w1
         | Some e \<Rightarrow> log_debug ErrorClosingConnection True w1))"

definition shutdown_server :: "net \<Rightarrow> world \<Rightarrow> world" where
  "shutdown_server nw w =
     (let w1 = log_debug ShuttingDownServer True (w\<lparr>running := False\<rparr>);
          w2 = close_targets nw (target_connections w1) w1
      in emit SysExit (emit (TimeSleep 3) (emit LoopStop w2)))"

record args =
  arg_port :: int
  arg_config :: string
  arg_debug :: bool

text \<open>The dict comprehension \<open>{ip: None for ip in ips}\<close>.\<close>

definition init_targets :: "pystr list \<Rightarrow> (pystr \<times> conn option) list" where
  "init_targets ips = foldl (\<lambda>d ip. dict_set d ip None) [] ips"

definition main :: "args \<Rightarrow> filesystem \<Rightarrow> net \<Rightarrow> net \<Rightarrow> activity list \<Rightarrow> task" where
  "main a fs nw nw1 acts w =
     (case read_ips_from_config fs (arg_config a) of
        Inl e \<Rightarrow> (Some (Error e), w)
      | Inr ips \<Rightarrow>
          start_server nw nw1 (arg_debug a) acts
            (emit InstallSigintHandler
               (w\<lparr>target_connections := init_targets ips, PORT := Some (arg_port a)\<rparr>)))"

section \<open>The UDP relay\<close>

text \<open>
  The globals of \<open>udprelay.py\<close>; \<open>target_ips\<close> holds the list that
  \<open>read_ips_from_config\<close> returned.
\<close>

record udp_world =
  target_ips :: "pystr list"
  udp_running :: bool
  udp_PORT :: "int option"
  udp_trace :: "event list"

text \<open>
  \<open>udp_sendto ip port data\<close> is the outcome of the \<open>with\<close> block of
  \<open>forward_data\<close>: a fresh datagram socket and one \<open>sendto\<close> on it.
\<close>

record udp_net =
  udp_sendto :: "pystr \<Rightarrow> int option \<Rightarrow> bytes \<Rightarrow> error option"

datatype recv_result = RecvReturns bytes pystr | RecvRaises exn

definition udp_emit :: "event \<Rightarrow> udp_world \<Rightarrow> udp_world" where
  "udp_emit e w = w\<lparr>udp_trace := udp_trace w @ [e]\<rparr>"

definition udp_log_debug :: "logmsg \<Rightarrow> bool \<Rightarrow> udp_world \<Rightarrow> udp_world" where
  "udp_log_debug msg debug w = (if debug then udp_emit (Print msg) w else w)"

definition udp_forward_data ::
    "udp_net \<Rightarrow> bytes \<Rightarrow> pystr \<Rightarrow> bool \<Rightarrow> udp_world \<Rightarrow> exn option \<times> udp_world" where
  "udp_forward_data nw data ip debug w =
     (let w1 = udp_emit (SendTo ip (udp_PORT w) data) w in
      case udp_sendto nw ip (udp_PORT w) data of
        None \<Rightarrow> (None, udp_log_debug (DataForwarded ip (udp_PORT w)) debug w1)
      | Some e \<Rightarrow> (None, udp_log_debug (FailedToForward ip (udp_PORT w) e) debug w1))"

fun udp_gather ::
    "(udp_world \<Rightarrow> exn option \<times> udp_world) list \<Rightarrow> udp_world \<Rightarrow> exn option \<times> udp_world" where
  "udp_gather [] w = (None, w)"
| "udp_gather (t # ts) w =
     (case t w of (r, w1) \<Rightarrow>
        (case udp_gather ts w1 of (rs, w2) \<Rightarrow>
           ((case r of Some e \<Rightarrow> Some e | None \<Rightarrow> rs), w2)))"

text \<open>
  The receive loop of the UDP \<open>handle_client\<close>, over a script of what
  \<open>sock_recvfrom\<close> returns. Here too the f-string decodes the datagram before
  \<open>log_debug\<close> looks at \<open>debug\<close>.
\<close>

fun udp_loop :: "(recv_result \<times> udp_net) list \<Rightarrow> bool \<Rightarrow> udp_world \<Rightarrow> loop_exit \<times> udp_world" where
  "udp_loop [] debug w =
     (if \<not> udp_running w then (LoopEnded, w)
      else (LoopAwaiting, udp_emit (SockRecvFrom 4096) (udp_log_debug WaitingForData debug w)))"
| "udp_loop ((rv, nw) # script) debug w =
     (if \<not> udp_running w then (LoopEnded, w)
      else
        (let w1 = udp_emit (SockRecvFrom 4096) (udp_log_debug WaitingForData debug w) in
         case rv of
           RecvRaises x \<Rightarrow> (LoopRaised x, w1)
         | RecvReturns data addr \<Rightarrow>
             if data = [] then (LoopEnded, w1)
             else if \<not> utf8_valid data then (LoopRaised (Error UnicodeDecodeError), w1)
             else
               (case udp_gather (map (\<lambda>ip. udp_forward_data nw data ip debug) (target_ips w1))
                       (udp_log_debug (ReceivedFrom addr data) debug w1) of
                  (Some x, w2) \<Rightarrow> (LoopRaised x, w2)
                | (None, w2) \<Rightarrow> udp_loop script debug w2)))"

definition udp_handle_client ::
    "(recv_result \<times> udp_net) list \<Rightarrow> bool \<Rightarrow> udp_world \<Rightarrow> session \<times> udp_world" where
  "udp_handle_client script debug w =
     (case udp_loop script debug w of
        (LoopAwaiting, w1) \<Rightarrow> (SessionAwaiting, w1)
      | (LoopEnded, w1) \<Rightarrow> (SessionOver None, w1)
      | (LoopRaised (Error e), w1) \<Rightarrow>
          (SessionOver None, udp_log_debug (ErrorHandlingClient e) debug w1)
      | (LoopRaised CancelledError, w1) \<Rightarrow> (SessionOver (Some CancelledError), w1))"

section \<open>Observations on states and traces\<close>

text \<open>
  What the \<open>try\<close> body of \<open>forward_to_target\<close> raises on connection \<open>c\<close>:
  the error of \<open>writer.write\<close>, else that of \<open>writer.drain\<close>.
\<close>

definition write_outcome :: "net \<Rightarrow> conn \<Rightarrow> bytes \<Rightarrow> exn option" where
  "write_outcome nw c data =
     (case net_write nw (writer c) data of
        Some e \<Rightarrow> Some (Error e)
      | None \<Rightarrow> net_drain nw (writer c))"

definition reset_class :: "exn option \<Rightarrow> bool" where
  "reset_class r = (r = Some (Error ConnectionResetError) \<or> r = Some (Error BrokenPipeError))"

text \<open>
  What one \<open>forward_data\<close> call does to an entry of the dict, as decided by that
  entry's own write alone.
\<close>

definition demote :: "net \<Rightarrow> bytes \<Rightarrow> pystr \<times> conn option \<Rightarrow> pystr \<times> conn option" where
  "demote nw data p =
     (case snd p of
        None \<Rightarrow> p
      | Some c \<Rightarrow> if reset_class (write_outcome nw c data) then (fst p, None) else p)"

text \<open>The events appended to the trace between an earlier state and a later one.\<close>

definition emitted :: "world \<Rightarrow> world \<Rightarrow> event list" where
  "emitted w w' = drop (length (trace w)) (trace w')"

text \<open>
  \<open>grows P w w'\<close>: the later state's trace is the earlier one's with events appended,
  each of which satisfies \<open>P\<close>.
\<close>

definition grows :: "(event \<Rightarrow> bool) \<Rightarrow> world \<Rightarrow> world \<Rightarrow> bool" where
  "grows P w w' = (take (length (trace w)) (trace w') = trace w \<and> list_all P (emitted w w'))"

text \<open>
  What one connect pass does to an entry of the dict, as decided by the network's answer
  for that entry's address alone.
\<close>

definition promote :: "net \<Rightarrow> int option \<Rightarrow> pystr \<times> conn option \<Rightarrow> pystr \<times> conn option" where
  "promote nw port p =
     (case snd p of
        Some c \<Rightarrow> p
      | None \<Rightarrow>
          (case net_open_connection nw (fst p) port 5 of
             Inr c \<Rightarrow> (fst p, Some c)
           | Inl x \<Rightarrow> p))"

text \<open>The writers of the connected targets, in the order of the dict.\<close>

definition connected_writers :: "(pystr \<times> conn option) list \<Rightarrow> nat list" where
  "connected_writers d = concat (map (\<lambda>p. case snd p of None \<Rightarrow> [] | Some c \<Rightarrow> [writer c]) d)"

text \<open>
  What closing one writer at shutdown leaves in the trace: the call, and the log line
  when the call raises.
\<close>

definition close_events :: "net \<Rightarrow> nat \<Rightarrow> event list" where
  "close_events nw h =
     WriterClose h # (case net_close nw h of None \<Rightarrow> [] | Some e \<Rightarrow> [Print ErrorClosingConnection])"

text \<open>What the \<open>finally\<close> block of \<open>handle_client\<close> leaves in the trace.\<close>

definition closing_events :: "net \<Rightarrow> conn \<Rightarrow> bool \<Rightarrow> event list" where
  "closing_events nw cl debug =
     WriterClose (writer cl) #
       (case net_close nw (writer cl) of
          Some e \<Rightarrow> []
        | None \<Rightarrow>
            WriterWaitClosed (writer cl) #
              (case net_wait_closed nw (writer cl) of
                 Some x \<Rightarrow> []
               | None \<Rightarrow> if debug then [Print ClientConnectionClosed] else []))"

text \<open>A list without its repetitions: each element where it first occurs.\<close>

fun first_occurrences :: "'a list \<Rightarrow> 'a list" where
  "first_occurrences [] = []"
| "first_occurrences (x # xs) = x # filter (\<lambda>y. y \<noteq> x) (first_occurrences xs)"

text \<open>
  The reads that end a session: one that raises, an empty one, and one whose chunk does
  not decode.
\<close>

fun ends_session :: "read_result \<Rightarrow> bool" where
  "ends_session (ReadRaises x) = True"
| "ends_session (ReadReturns data) = (data = [] \<or> \<not> utf8_valid data)"

fun is_send :: "event \<Rightarrow> bool" where
  "is_send (SendTo ip p d) = True"
| "is_send e = False"

fun is_listen :: "event \<Rightarrow> bool" where
  "is_listen (StartServer h p) = True"
| "is_listen e = False"

fun is_print :: "event \<Rightarrow> bool" where
  "is_print (Print m) = True"
| "is_print e = False"

fun is_close :: "event \<Rightarrow> bool" where
  "is_close (WriterClose h) = True"
| "is_close e = False"

fun is_dial :: "event \<Rightarrow> bool" where
  "is_dial (OpenConnection ip p t) = True"
| "is_dial e = False"

section \<open>Example inputs\<close>

text \<open>
  A registry with two connected targets and a disconnected one, and a network on which
  the first target's connection is broken, the second one's write fails with another
  error, and the third target is reachable again.
\<close>

definition example_world :: world where
  "example_world =
     \<lparr>target_connections = [([49], Some (Conn 1 2)), ([50], Some (Conn 3 4)), ([51], None)],
      running = True, PORT = Some 9000, trace = []\<rparr>"

definition example_net :: net where
  "example_net =
     \<lparr>net_open_connection =
        (\<lambda>ip p t. if ip = [51] then Inr (Conn 5 6) else Inl (Error ConnectionRefusedError)),
      net_write = (\<lambda>h d. None),
      net_drain =
        (\<lambda>h. if h = 2 then Some (Error BrokenPipeError)
             else if h = 4 then Some (Error OSError) else None),
      net_close = (\<lambda>h. if h = 2 then Some RuntimeError else None),
      net_wait_closed = (\<lambda>h. None),
      net_start_server = (\<lambda>h p. None)\<rparr>"

text \<open>The same network at a time when no target accepts a connection.\<close>

definition example_net_refusing :: net where
  "example_net_refusing =
     example_net\<lparr>net_open_connection := (\<lambda>ip p t. Inl (Error ConnectionRefusedError))\<rparr>"

text \<open>
  A config file of four lines, \<open>10\<close>, an empty line, \<open>11\<close> between blanks and
  ended by \<open>\r\n\<close>, and \<open>10\<close> again, and the arguments that name it.
\<close>

definition example_fs :: filesystem where
  "example_fs =
     (\<lambda>p. if p = ''config.txt'' then Some [49, 48, 10, 10, 32, 49, 49, 32, 13, 10, 49, 48]
          else None)"

definition example_args :: args where
  "example_args = \<lparr>arg_port = 9000, arg_config = ''config.txt'', arg_debug = False\<rparr>"

text \<open>A UDP relay with two targets, on a network where every send succeeds.\<close>

definition example_udp_world :: udp_world where
  "example_udp_world =
     \<lparr>target_ips = [[49], [50]], udp_running = True, udp_PORT = Some 9000, udp_trace = []\<rparr>"

definition example_udp_net :: udp_net where
  "example_udp_net = \<lparr>udp_sendto = (\<lambda>ip p d. None)\<rparr>"

section \<open>Facts about the model\<close>

subsection \<open>State fields, dicts and gathered tasks\<close>

lemma trace_emit [simp]: "trace (emit e w) = trace w @ [e]"
  and tc_emit [simp]: "target_connections (emit e w) = target_connections w"
  and running_emit [simp]: "running (emit e w) = running w"
  and PORT_emit [simp]: "PORT (emit e w) = PORT w"
  by (simp_all add: emit_def)

lemma trace_log_debug [simp]: "trace (log_debug m d w) = trace w @ (if d then [Print m] else [])"
  and tc_log_debug [simp]: "target_connections (log_debug m d w) = target_connections w"
  and running_log_debug [simp]: "running (log_debug m d w) = running w"
  and PORT_log_debug [simp]: "PORT (log_debug m d w) = PORT w"
  by (simp_all add: log_debug_def)

lemma forward_tasks_none:
  "\<forall>p \<in> set items. snd p = None \<Longrightarrow> forward_tasks nw data debug items = []"
  by (induction nw data debug items rule: forward_tasks.induct) auto

lemma dict_set_update: "dict_set d k v = AList.update k v d"
  by (induction d) auto

lemma dict_get_dict_set:
  "dict_get (dict_set d k v) k' = (if k' = k then Some v else dict_get d k')"
  by (simp add: dict_get_def dict_set_update update_conv')

lemma keys_dict_set:
  "k \<in> fst ` set d \<Longrightarrow> map fst (dict_set d k v) = map fst d"
  by (induction d) force+

lemma snd_gather_Cons: "snd (gather (t # ts) w) = snd (gather ts (snd (t w)))"
  by (simp split: prod.splits)

lemma fst_gather_Cons:
  "fst (gather (t # ts) w) =
     (case fst (t w) of Some e \<Rightarrow> Some e | None \<Rightarrow> fst (gather ts (snd (t w))))"
  by (auto split: prod.splits option.splits)

lemma dict_set_middle:
  "k \<notin> fst ` set xs \<Longrightarrow> dict_set (xs @ (k, v) # ys) k v' = xs @ (k, v') # ys"
  by (induction xs) auto

lemma tc_set_target [simp]:
  "target_connections (set_target ip c w) = dict_set (target_connections w) ip c"
  and trace_set_target [simp]: "trace (set_target ip c w) = trace w"
  and running_set_target [simp]: "running (set_target ip c w) = running w"
  and PORT_set_target [simp]: "PORT (set_target ip c w) = PORT w"
  by (simp_all add: set_target_def)

lemma fst_forward_to_target:
  "fst (forward_to_target nw ip c data debug w) =
     (if write_outcome nw c data = Some CancelledError then Some CancelledError else None)"
  by (auto simp: forward_to_target_def write_outcome_def Let_def split: option.splits exn.splits)

lemma tc_forward_to_target:
  "target_connections (snd (forward_to_target nw ip c data debug w)) =
     (if reset_class (write_outcome nw c data) then dict_set (target_connections w) ip None
      else target_connections w)"
  by (auto simp: forward_to_target_def write_outcome_def reset_class_def Let_def
           split: option.splits exn.splits)

lemma running_forward_to_target [simp]:
  "running (snd (forward_to_target nw ip c data debug w)) = running w"
  and PORT_forward_to_target [simp]:
  "PORT (snd (forward_to_target nw ip c data debug w)) = PORT w"
  by (auto simp: forward_to_target_def Let_def split: option.splits exn.splits)

lemma tc_gather_forward:
  "distinct (map fst (pre @ items)) \<Longrightarrow> target_connections w = pre @ items \<Longrightarrow>
   target_connections (snd (gather (forward_tasks nw data debug items) w)) =
     pre @ map (demote nw data) items"
proof (induction nw data debug items arbitrary: pre w rule: forward_tasks.induct)
  case (1 nw data debug)
  then show ?case by simp
next
  case (2 nw data debug ip items)
  from 2(2,3) have "distinct (map fst ((pre @ [(ip, None)]) @ items))"
    and "target_connections w = (pre @ [(ip, None)]) @ items" by simp_all
  from 2(1)[OF this] show ?case by (simp add: demote_def)
next
  case (3 nw data debug ip c items)
  define w1 where "w1 = snd (forward_to_target nw ip c data debug w)"
  have notin: "ip \<notin> fst ` set pre" using 3(2) by auto
  have tc1: "target_connections w1 = (pre @ [demote nw data (ip, Some c)]) @ items"
    using tc_forward_to_target[of nw ip c data debug w] 3(3) notin
    by (simp add: w1_def demote_def dict_set_middle)
  have d1: "distinct (map fst ((pre @ [demote nw data (ip, Some c)]) @ items))"
    using 3(2) by (simp add: demote_def)
  from 3(1)[OF d1 tc1] show ?case
    by (simp add: snd_gather_Cons w1_def del: gather.simps)
qed

lemma tc_forward_data:
  "distinct (map fst (target_connections w)) \<Longrightarrow>
   target_connections (snd (forward_data nw data debug w)) =
     map (demote nw data) (target_connections w)"
proof -
  assume d: "distinct (map fst (target_connections w))"
  show ?thesis
  proof (cases "forward_tasks nw data debug (target_connections w) = []")
    case True
    have "target_connections (snd (gather (forward_tasks nw data debug (target_connections w)) w)) =
        [] @ map (demote nw data) (target_connections w)"
      by (rule tc_gather_forward) (use d in simp_all)
    with True show ?thesis by (simp add: forward_data_def)
  next
    case False
    have "target_connections (snd (gather (forward_tasks nw data debug (target_connections w)) w)) =
        [] @ map (demote nw data) (target_connections w)"
      by (rule tc_gather_forward) (use d in simp_all)
    with False show ?thesis by (simp add: forward_data_def)
  qed
qed

lemma fst_forward_data_no_error:
  "fst (forward_data nw data debug w) \<noteq> Some (Error e)"
proof -
  have "fst (gather (forward_tasks nw data debug items) w0) \<noteq> Some (Error e)" for items w0
    by (induction nw data debug items arbitrary: w0 rule: forward_tasks.induct)
       (simp_all add: fst_gather_Cons fst_forward_to_target del: gather.simps(2))
  then show ?thesis by (simp add: forward_data_def Let_def)
qed

lemma fst_demote: "fst (demote nw data p) = fst p"
  by (simp add: demote_def split: option.splits)

lemma dict_get_demote:
  "dict_get (map (demote nw data) d) k =
     (case dict_get d k of
        None \<Rightarrow> None
      | Some None \<Rightarrow> Some None
      | Some (Some c) \<Rightarrow> if reset_class (write_outcome nw c data) then Some None else Some (Some c))"
  by (induction d) (auto simp: dict_get_def demote_def split: option.splits)

lemma demote_only_one:
  "distinct (map fst d) \<Longrightarrow> dict_get d T = Some (Some c) \<Longrightarrow>
   reset_class (write_outcome nw c data) \<Longrightarrow>
   (\<forall>U c'. U \<noteq> T \<longrightarrow> dict_get d U = Some (Some c') \<longrightarrow> \<not> reset_class (write_outcome nw c' data)) \<Longrightarrow>
   map (demote nw data) d = dict_set d T None"
proof (induction d)
  case Nil
  then show ?case by (simp add: dict_get_def)
next
  case (Cons p d)
  obtain k v where p: "p = (k, v)" by force
  show ?case
  proof (cases "k = T")
    case True
    with Cons.prems p have v: "v = Some c" by (simp add: dict_get_def)
    have "map (demote nw data) d = d"
    proof (rule map_idI)
      fix q assume q: "q \<in> set d"
      obtain k' v' where q': "q = (k', v')" by force
      from q q' Cons.prems(1) p True have ne: "k' \<noteq> T" by force
      moreover from q q' Cons.prems(1) p ne True have "dict_get (p # d) k' = Some v'"
        by (auto simp: dict_get_def)
      ultimately show "demote nw data q = q" using Cons.prems(4) q'
        by (cases v') (auto simp: demote_def)
    qed
    moreover have "demote nw data p = (T, None)"
      using True p v Cons.prems(3) by (simp add: demote_def)
    ultimately show ?thesis using True p by simp
  next
    case False
    with Cons.prems p have g: "dict_get d T = Some (Some c)" by (simp add: dict_get_def)
    have o: "\<forall>U c'. U \<noteq> T \<longrightarrow> dict_get d U = Some (Some c') \<longrightarrow>
        \<not> reset_class (write_outcome nw c' data)"
    proof (intro allI impI)
      fix U c' assume U: "U \<noteq> T" and "dict_get d U = Some (Some c')"
      moreover from this Cons.prems(1) p have "U \<noteq> k"
        by (force simp: dict_get_def dest: map_of_SomeD)
      ultimately have "dict_get (p # d) U = Some (Some c')" using p by (simp add: dict_get_def)
      with U Cons.prems(4) show "\<not> reset_class (write_outcome nw c' data)" by blast
    qed
    from Cons.prems(1) have "distinct (map fst d)" by simp
    from Cons.IH[OF this g Cons.prems(3) o] have ih: "map (demote nw data) d = dict_set d T None" .
    have "dict_get (p # d) k = Some v" using p by (simp add: dict_get_def)
    with False Cons.prems(4) have "demote nw data p = p" using p
      by (cases v) (auto simp: demote_def)
    with ih False p show ?thesis by simp
  qed
qed

subsection \<open>Traces\<close>

lemma emitted_append: "trace w' = trace w @ evs \<Longrightarrow> emitted w w' = evs"
  by (simp add: emitted_def)

lemma growsI: "trace w' = trace w @ evs \<Longrightarrow> list_all P evs \<Longrightarrow> grows P w w'"
  by (simp add: grows_def emitted_def)

lemma growsD: "grows P w w' \<Longrightarrow> trace w' = trace w @ emitted w w' \<and> list_all P (emitted w w')"
  by (metis append_take_drop_id emitted_def grows_def)

lemma grows_refl: "grows P w w"
  by (simp add: grows_def emitted_def)

lemma grows_trans: "grows P w w1 \<Longrightarrow> grows P w1 w2 \<Longrightarrow> grows P w w2"
proof -
  assume a: "grows P w w1" and b: "grows P w1 w2"
  from growsD[OF a] growsD[OF b]
  have "trace w2 = trace w @ (emitted w w1 @ emitted w1 w2)"
    and "list_all P (emitted w w1 @ emitted w1 w2)" by simp_all
  then show ?thesis by (rule growsI)
qed

lemma grows_mono: "grows P w w' \<Longrightarrow> (\<And>e. P e \<Longrightarrow> Q e) \<Longrightarrow> grows Q w w'"
  by (auto simp: grows_def list_all_iff)

lemma grows_emittedD: "grows P w w' \<Longrightarrow> e \<in> set (emitted w w') \<Longrightarrow> P e"
  by (simp add: grows_def list_all_iff)

lemma emitted_trans:
  "grows P w w1 \<Longrightarrow> grows Q w1 w2 \<Longrightarrow> emitted w w2 = emitted w w1 @ emitted w1 w2"
proof -
  assume a: "grows P w w1" and b: "grows Q w1 w2"
  from growsD[OF a] growsD[OF b]
  have "trace w2 = trace w @ (emitted w w1 @ emitted w1 w2)" by simp
  then show ?thesis by (rule emitted_append)
qed

lemma grows_emit: "P e \<Longrightarrow> grows P w (emit e w)"
  by (rule growsI[where evs = "[e]"]) simp_all

lemma grows_log_debug: "P (Print m) \<Longrightarrow> grows P w (log_debug m d w)"
  by (rule growsI[where evs = "if d then [Print m] else []"]) simp_all

lemma grows_set_target: "grows P w (set_target ip c w)"
  by (rule growsI[where evs = "[]"]) simp_all

lemma grows_forward_to_target:
  "grows (\<lambda>e. \<not> is_dial e) w (snd (forward_to_target nw ip c data debug w))"
  by (rule growsI[where evs = "emitted w (snd (forward_to_target nw ip c data debug w))"])
     (auto simp: forward_to_target_def emitted_def Let_def split: option.splits exn.splits)

lemma grows_gather:
  "(\<And>t w0. t \<in> set ts \<Longrightarrow> grows P w0 (snd (t w0))) \<Longrightarrow> grows P w (snd (gather ts w))"
proof (induction ts arbitrary: w)
  case Nil
  then show ?case by (simp add: grows_refl)
next
  case (Cons t ts)
  have "grows P w (snd (t w))" using Cons.prems by simp
  moreover have "grows P (snd (t w)) (snd (gather ts (snd (t w))))"
    using Cons.IH Cons.prems by simp
  ultimately show ?case by (simp add: snd_gather_Cons grows_trans del: gather.simps(2))
qed

lemma forward_tasks_mem:
  "t \<in> set (forward_tasks nw data debug items) \<Longrightarrow>
   \<exists>ip c. (ip, Some c) \<in> set items \<and> t = forward_to_target nw ip c data debug"
  by (induction nw data debug items rule: forward_tasks.induct) auto

lemma grows_forward_data:
  "grows (\<lambda>e. \<not> is_dial e) w (snd (forward_data nw data debug w))"
proof -
  have "grows (\<lambda>e. \<not> is_dial e) w (snd (gather (forward_tasks nw data debug (target_connections w)) w))"
    by (rule grows_gather) (auto dest!: forward_tasks_mem simp: grows_forward_to_target)
  then show ?thesis by (simp add: forward_data_def Let_def grows_refl)
qed

lemma emitted_forward_to_target_other:
  "write_outcome nw c data = Some (Error e) \<Longrightarrow> e \<noteq> ConnectionResetError \<Longrightarrow>
   e \<noteq> BrokenPipeError \<Longrightarrow>
   Print (FailedToForward T (PORT w) e) \<in> set (emitted w (snd (forward_to_target nw T c data True w)))"
  by (auto simp: forward_to_target_def write_outcome_def emitted_def Let_def
           split: option.splits exn.splits)

subsection \<open>The connect pass\<close>

lemma fst_connect_to_target:
  "fst (connect_to_target nw ip debug w) =
     (if net_open_connection nw ip (PORT w) 5 = Inl CancelledError then Some CancelledError else None)"
  by (auto simp: connect_to_target_def Let_def split: sum.splits exn.splits)

lemma tc_connect_to_target:
  "target_connections (snd (connect_to_target nw ip debug w)) =
     (case net_open_connection nw ip (PORT w) 5 of
        Inr c \<Rightarrow> dict_set (target_connections w) ip (Some c)
      | Inl x \<Rightarrow> target_connections w)"
  by (auto simp: connect_to_target_def Let_def split: sum.splits exn.splits)

lemma PORT_connect_to_target [simp]:
  "PORT (snd (connect_to_target nw ip debug w)) = PORT w"
  and running_connect_to_target [simp]:
  "running (snd (connect_to_target nw ip debug w)) = running w"
  by (auto simp: connect_to_target_def Let_def split: sum.splits exn.splits)

lemma emitted_connect_to_target:
  "emitted w (snd (connect_to_target nw ip debug w)) =
     OpenConnection ip (PORT w) 5 #
       (case net_open_connection nw ip (PORT w) 5 of
          Inr c \<Rightarrow> if debug then [Print (ConnectedToTarget ip (PORT w))] else []
        | Inl (Error e) \<Rightarrow> if debug then [Print (FailedToConnect ip (PORT w) e)] else []
        | Inl CancelledError \<Rightarrow> [])"
  by (rule emitted_append)
     (auto simp: connect_to_target_def Let_def split: sum.splits exn.splits)

lemma trace_connect_to_target:
  "trace (snd (connect_to_target nw ip debug w)) =
     trace w @ emitted w (snd (connect_to_target nw ip debug w))"
  unfolding emitted_connect_to_target
  by (auto simp: connect_to_target_def Let_def split: sum.splits exn.splits)

lemma grows_connect_to_target:
  "grows (\<lambda>e. is_dial e \<longrightarrow> e = OpenConnection ip (PORT w) 5) w
     (snd (connect_to_target nw ip debug w))"
  by (rule growsI[OF trace_connect_to_target])
     (auto simp: emitted_connect_to_target split: sum.splits exn.splits)

lemma connect_tasks_mem:
  "t \<in> set (connect_tasks nw debug d ips) \<Longrightarrow>
   \<exists>ip \<in> set ips. dict_get d ip = Some None \<and> t = connect_to_target nw ip debug"
  by (induction ips) (auto split: if_splits)

lemma gather_preserves:
  "(\<And>t w0. t \<in> set ts \<Longrightarrow> f (snd (t w0)) = f w0) \<Longrightarrow> f (snd (gather ts w)) = f w"
proof (induction ts arbitrary: w)
  case Nil
  then show ?case by simp
next
  case (Cons t ts)
  have "f (snd (gather ts (snd (t w)))) = f (snd (t w))" using Cons.IH Cons.prems by simp
  also have "\<dots> = f w" using Cons.prems by simp
  finally show ?case by (simp add: snd_gather_Cons del: gather.simps(2))
qed

lemma PORT_gather_connect [simp]:
  "PORT (snd (gather (connect_tasks nw debug d ips) w)) = PORT w"
  by (rule gather_preserves) (auto dest!: connect_tasks_mem)

lemma running_gather_connect [simp]:
  "running (snd (gather (connect_tasks nw debug d ips) w)) = running w"
  by (rule gather_preserves) (auto dest!: connect_tasks_mem)

lemma grows_gather_connect:
  "grows (\<lambda>e. is_dial e \<longrightarrow>
            (\<exists>ip \<in> set ips. dict_get d ip = Some None \<and> e = OpenConnection ip (PORT w) 5))
     w (snd (gather (connect_tasks nw debug d ips) w))"
proof (induction ips arbitrary: w)
  case Nil
  then show ?case by (simp add: grows_refl)
next
  case (Cons ip ips)
  let ?P = "\<lambda>e. is_dial e \<longrightarrow>
      (\<exists>i \<in> set (ip # ips). dict_get d i = Some None \<and> e = OpenConnection i (PORT w) 5)"
  show ?case
  proof (cases "dict_get d ip = Some None")
    case False
    have "grows ?P w (snd (gather (connect_tasks nw debug d ips) w))"
      by (rule grows_mono[OF Cons.IH]) auto
    with False show ?thesis by simp
  next
    case True
    let ?w1 = "snd (connect_to_target nw ip debug w)"
    have a: "grows ?P w ?w1"
      by (rule grows_mono[OF grows_connect_to_target]) (use True in auto)
    have b: "grows ?P ?w1 (snd (gather (connect_tasks nw debug d ips) ?w1))"
      by (rule grows_mono[OF Cons.IH]) auto
    from grows_trans[OF a b] True show ?thesis
      by (simp add: snd_gather_Cons del: gather.simps(2))
  qed
qed

lemma fst_gather_connect_no_error:
  "fst (gather (connect_tasks nw debug d ips) w) \<noteq> Some (Error e)"
  by (induction ips arbitrary: w)
     (simp_all add: fst_gather_Cons fst_connect_to_target del: gather.simps(2))

lemma fst_connect_to_targets_no_error:
  "fst (connect_to_targets nw debug w) \<noteq> Some (Error e)"
  by (simp add: connect_to_targets_def Let_def fst_gather_connect_no_error)

lemma snd_connect_to_targets:
  "snd (connect_to_targets nw debug w) =
     snd (gather (connect_tasks nw debug (target_connections w) (map fst (target_connections w))) w)"
  by (simp add: connect_to_targets_def Let_def)

lemma grows_connect_to_targets:
  "grows (\<lambda>e. is_dial e \<longrightarrow>
            (\<exists>ip. dict_get (target_connections w) ip = Some None \<and> e = OpenConnection ip (PORT w) 5))
     w (snd (connect_to_targets nw debug w))"
  unfolding snd_connect_to_targets
  by (rule grows_mono[OF grows_gather_connect]) auto

lemma connected_not_dialled:
  "dict_get (target_connections w) T = Some (Some c) \<Longrightarrow>
   OpenConnection T p t \<notin> set (emitted w (snd (connect_to_targets nw debug w)))"
  using grows_emittedD[OF grows_connect_to_targets, of "OpenConnection T p t" w nw debug]
  by auto

lemma fst_promote: "fst (promote nw port p) = fst p"
  by (simp add: promote_def split: option.splits sum.splits)

lemma dict_get_middle:
  "k \<notin> fst ` set xs \<Longrightarrow> dict_get (xs @ (k, v) # ys) k = Some v"
  by (induction xs) (auto simp: dict_get_def)

lemma tc_gather_connect:
  "distinct (map fst d) \<Longrightarrow> d = pre0 @ items \<Longrightarrow> target_connections w = pre @ items \<Longrightarrow>
   map fst pre = map fst pre0 \<Longrightarrow>
   target_connections (snd (gather (connect_tasks nw debug d (map fst items)) w)) =
     pre @ map (promote nw (PORT w)) items"
proof (induction items arbitrary: pre pre0 w)
  case Nil
  then show ?case by simp
next
  case (Cons p items)
  obtain ip v where p: "p = (ip, v)" by force
  have notin0: "ip \<notin> fst ` set pre0" using Cons.prems(1,2) p by auto
  then have notin: "ip \<notin> fst ` set pre" using Cons.prems(4) by (metis list.set_map)
  have get: "dict_get d ip = Some v" using Cons.prems(2) p notin0 by (simp add: dict_get_middle)
  show ?case
  proof (cases "v = None \<and> (\<exists>c. net_open_connection nw ip (PORT w) 5 = Inr c)")
    case True
    then obtain c where v: "v = None" and c: "net_open_connection nw ip (PORT w) 5 = Inr c"
      by blast
    let ?w1 = "snd (connect_to_target nw ip debug w)"
    have tc1: "target_connections ?w1 = (pre @ [(ip, Some c)]) @ items"
      using c Cons.prems(3) p v notin by (simp add: tc_connect_to_target dict_set_middle)
    have "target_connections (snd (gather (connect_tasks nw debug d (map fst items)) ?w1)) =
        (pre @ [(ip, Some c)]) @ map (promote nw (PORT ?w1)) items"
      by (rule Cons.IH[OF Cons.prems(1) _ tc1, of "pre0 @ [p]"])
         (use Cons.prems(2,4) p in simp_all)
    then show ?thesis using get v c p
      by (simp add: snd_gather_Cons promote_def del: gather.simps(2))
  next
    case False
    let ?w1 = "if v = None then snd (connect_to_target nw ip debug w) else w"
    have tc1: "target_connections ?w1 = (pre @ [p]) @ items"
      using False Cons.prems(3) by (auto simp: tc_connect_to_target split: sum.splits)
    have port: "PORT ?w1 = PORT w" by simp
    have "target_connections (snd (gather (connect_tasks nw debug d (map fst items)) ?w1)) =
        (pre @ [p]) @ map (promote nw (PORT ?w1)) items"
      by (rule Cons.IH[OF Cons.prems(1) _ tc1, of "pre0 @ [p]"])
         (use Cons.prems(2,4) p in simp_all)
    moreover have "promote nw (PORT w) p = p"
      using False p by (auto simp: promote_def split: option.splits sum.splits)
    ultimately show ?thesis using get p port
      by (auto simp: snd_gather_Cons simp del: gather.simps(2))
  qed
qed

lemma tc_connect_to_targets:
  "distinct (map fst (target_connections w)) \<Longrightarrow>
   target_connections (snd (connect_to_targets nw debug w)) =
     map (promote nw (PORT w)) (target_connections w)"
  unfolding snd_connect_to_targets
  using tc_gather_connect[of "target_connections w" "[]" "target_connections w" w "[]" nw debug]
  by simp

lemma PORT_connect_to_targets [simp]:
  "PORT (snd (connect_to_targets nw debug w)) = PORT w"
  and running_connect_to_targets [simp]:
  "running (snd (connect_to_targets nw debug w)) = running w"
  by (simp_all add: snd_connect_to_targets)

lemma promote_idem: "promote nw port (promote nw port p) = promote nw port p"
  by (auto simp: promote_def split: option.splits sum.splits)

lemma dict_get_promote:
  "dict_get (map (promote nw port) d) k =
     (case dict_get d k of
        None \<Rightarrow> None
      | Some (Some c) \<Rightarrow> Some (Some c)
      | Some None \<Rightarrow>
          (case net_open_connection nw k port 5 of
             Inr c \<Rightarrow> Some (Some c)
           | Inl x \<Rightarrow> Some None))"
  by (induction d) (auto simp: dict_get_def promote_def split: option.splits sum.splits)

subsection \<open>Shutdown\<close>

lemma close_targets_fields [simp]:
  "running (close_targets nw items w) = running w"
  "target_connections (close_targets nw items w) = target_connections w"
  "PORT (close_targets nw items w) = PORT w"
  by (induction nw items w rule: close_targets.induct) (simp_all add: Let_def split: option.splits)

lemma trace_close_targets:
  "trace (close_targets nw items w) =
     trace w @ concat (map (close_events nw) (connected_writers items))"
  by (induction nw items w rule: close_targets.induct)
     (simp_all add: Let_def connected_writers_def close_events_def split: option.splits)

lemma close_targets_take_running:
  "running (close_targets nw (take k items) w) = running w"
  by simp

lemma filter_is_close_events:
  "filter is_close (concat (map (close_events nw) hs)) = map WriterClose hs"
  by (induction hs) (auto simp: close_events_def split: option.splits)

lemma filter_print_close_events:
  "length (filter (\<lambda>e. e = Print ErrorClosingConnection) (concat (map (close_events nw) hs))) =
   length (filter (\<lambda>h. net_close nw h \<noteq> None) hs)"
  by (induction hs) (auto simp: close_events_def split: option.splits)

lemma writer_in_connected_writers:
  "(ip, Some c) \<in> set d \<Longrightarrow> writer c \<in> set (connected_writers d)"
  by (force simp: connected_writers_def)

subsection \<open>Client sessions and startup\<close>

lemma grows_any: "trace w' = trace w @ evs \<Longrightarrow> grows (\<lambda>e. True) w w'"
  by (rule growsI) (simp_all add: list_all_iff)

lemma grows_client_loop:
  "grows (\<lambda>e. True) w (snd (client_loop script cl debug w))"
proof (induction script arbitrary: w)
  case Nil
  then show ?case by (simp add: grows_refl grows_emit)
next
  case (Cons a script)
  obtain rd nw where a: "a = (rd, nw)" by force
  show ?case
  proof (cases "running w")
    case False
    then show ?thesis by (simp add: a grows_refl)
  next
    case True
    let ?w1 = "emit (ReaderRead (reader cl) 4096) w"
    have g1: "grows (\<lambda>e. True) w ?w1" by (simp add: grows_emit)
    show ?thesis
    proof (cases rd)
      case (ReadRaises x)
      with True g1 show ?thesis by (simp add: a)
    next
      case (ReadReturns data)
      show ?thesis
      proof (cases "data = [] \<or> \<not> utf8_valid data")
        case True
        with \<open>running w\<close> ReadReturns g1 show ?thesis by (auto simp: a Let_def)
      next
        case False
        let ?w2 = "log_debug (ReceivedFromClient data) debug ?w1"
        obtain r w3 where fd: "forward_data nw data debug ?w2 = (r, w3)" by force
        have g2: "grows (\<lambda>e. True) ?w1 ?w2" by (simp add: grows_log_debug)
        have g3: "grows (\<lambda>e. True) ?w2 w3"
          using grows_mono[OF grows_forward_data[of ?w2 nw data debug], of "\<lambda>e. True"] fd by simp
        note g = grows_trans[OF g1 grows_trans[OF g2 g3]]
        show ?thesis
        proof (cases r)
          case None
          from grows_trans[OF g Cons.IH[of w3]] show ?thesis
            using True False ReadReturns fd None by (simp add: a Let_def)
        next
          case (Some x)
          with g True False ReadReturns fd show ?thesis by (simp add: a Let_def)
        qed
      qed
    qed
  qed
qed

lemma running_forward_data [simp]:
  "running (snd (forward_data nw data debug w)) = running w"
proof -
  have "running (snd (gather (forward_tasks nw data debug items) w)) = running w" for items
    by (rule gather_preserves) (auto dest!: forward_tasks_mem)
  then show ?thesis by (simp add: forward_data_def Let_def)
qed

lemma client_loop_awaiting:
  "fst (client_loop script cl debug w) = LoopAwaiting \<Longrightarrow>
   running w \<and> (\<forall>p \<in> set script. \<not> ends_session (fst p))"
proof (induction script arbitrary: w)
  case Nil
  then show ?case by (simp split: if_splits)
next
  case (Cons a script)
  obtain rd nw where a: "a = (rd, nw)" by force
  from Cons.prems have r: "running w" by (auto simp: a split: if_splits)
  from Cons.prems r obtain data where rd: "rd = ReadReturns data"
    by (cases rd) (auto simp: a Let_def)
  from Cons.prems r rd have ok: "data \<noteq> []" "utf8_valid data"
    by (auto simp: a Let_def split: if_splits)
  let ?w2 = "log_debug (ReceivedFromClient data) debug (emit (ReaderRead (reader cl) 4096) w)"
  obtain x w3 where fd: "forward_data nw data debug ?w2 = (x, w3)" by force
  from Cons.prems r rd ok fd have "fst (client_loop script cl debug w3) = LoopAwaiting"
    by (cases x) (auto simp: a Let_def)
  from Cons.IH[OF this] have "\<forall>p \<in> set script. \<not> ends_session (fst p)" by simp
  with r rd ok show ?case by (simp add: a)
qed

lemma trace_finally_close:
  "trace (snd (finally_close nw cl debug pending w)) = trace w @ closing_events nw cl debug"
  by (auto simp: finally_close_def closing_events_def Let_def split: option.splits)

lemma fst_finally_close: "fst (finally_close nw cl debug pending w) \<noteq> SessionAwaiting"
  by (auto simp: finally_close_def Let_def split: option.splits)

lemma grows_connect_to_target_kinds:
  "grows (\<lambda>e. is_dial e \<or> is_print e) w (snd (connect_to_target nw ip debug w))"
  by (rule growsI[OF trace_connect_to_target])
     (auto simp: emitted_connect_to_target split: sum.splits exn.splits)

lemma grows_connect_to_targets_kinds:
  "grows (\<lambda>e. is_dial e \<or> is_print e) w (snd (connect_to_targets nw debug w))"
  unfolding snd_connect_to_targets
  by (rule grows_gather) (auto dest!: connect_tasks_mem simp: grows_connect_to_target_kinds)

lemma dialled_gather_connect:
  "ip \<in> set ips \<Longrightarrow> dict_get d ip = Some None \<Longrightarrow>
   OpenConnection ip (PORT w) 5 \<in> set (emitted w (snd (gather (connect_tasks nw debug d ips) w)))"
proof (induction ips arbitrary: w)
  case Nil
  then show ?case by simp
next
  case (Cons a ips)
  show ?case
  proof (cases "dict_get d a = Some None")
    case False
    with Cons.prems have "ip \<in> set ips" by auto
    from Cons.IH[OF this Cons.prems(2)] False show ?thesis by simp
  next
    case True
    let ?w1 = "snd (connect_to_target nw a debug w)"
    let ?w2 = "snd (gather (connect_tasks nw debug d ips) ?w1)"
    have em: "emitted w ?w2 = emitted w ?w1 @ emitted ?w1 ?w2"
      by (rule emitted_trans[OF grows_connect_to_target grows_gather_connect])
    have "OpenConnection ip (PORT w) 5 \<in> set (emitted w ?w1 @ emitted ?w1 ?w2)"
    proof (cases "ip = a")
      case True
      then show ?thesis by (simp add: emitted_connect_to_target)
    next
      case False
      with Cons.prems have "ip \<in> set ips" by auto
      from Cons.IH[OF this Cons.prems(2), of ?w1] show ?thesis by simp
    qed
    with em True show ?thesis by (simp add: snd_gather_Cons del: gather.simps(2))
  qed
qed

lemma dialled_connect_to_targets:
  "dict_get (target_connections w) ip = Some None \<Longrightarrow>
   OpenConnection ip (PORT w) 5 \<in> set (emitted w (snd (connect_to_targets nw debug w)))"
  unfolding snd_connect_to_targets
  by (rule dialled_gather_connect)
     (auto simp: dict_get_def dest!: map_of_SomeD intro: rev_image_eqI)

lemma listen_not_pass: "is_listen e \<Longrightarrow> \<not> (is_dial e \<or> is_print e)"
  by (cases e) auto

lemma grows_finally_close:
  "grows (\<lambda>e. True) w (snd (finally_close nw cl debug pending w))"
  by (rule grows_any[OF trace_finally_close])

lemma grows_handle_client:
  "grows (\<lambda>e. True) w (snd (handle_client script nw cl debug w))"
proof -
  obtain lx wl where cl: "client_loop script cl debug w = (lx, wl)" by force
  have g: "grows (\<lambda>e. True) w wl" using grows_client_loop[of w script cl debug] cl by simp
  have "grows (\<lambda>e. True) wl (snd (handle_client script nw cl debug w))"
    by (auto simp: handle_client_def cl grows_refl grows_finally_close
          intro: grows_trans[OF grows_log_debug grows_finally_close]
          split: loop_exit.splits exn.splits)
  with g show ?thesis by (rule grows_trans)
qed

lemma grows_reconnect_task:
  "grows (\<lambda>e. True) w (snd (reconnect_task nws debug w))"
proof (induction nws arbitrary: w)
  case Nil
  then show ?case by (simp add: grows_refl)
next
  case (Cons nw nws)
  show ?case
  proof (cases "running w")
    case False
    then show ?thesis by (simp add: grows_refl)
  next
    case True
    let ?w0 = "log_debug ConnectionMaintenance debug w"
    obtain r w1 where ct: "connect_to_targets nw debug ?w0 = (r, w1)" by force
    have g0: "grows (\<lambda>e. True) w ?w0" by (simp add: grows_log_debug)
    have g1: "grows (\<lambda>e. True) ?w0 w1"
      using grows_mono[OF grows_connect_to_targets_kinds[of ?w0 nw debug], of "\<lambda>e. True"] ct
      by simp
    note g = grows_trans[OF g0 g1]
    show ?thesis
    proof (cases r)
      case (Some x)
      with g True ct show ?thesis by simp
    next
      case None
      have "grows (\<lambda>e. True) w1 (emit (TimeSleep 10) w1)" by (simp add: grows_emit)
      from grows_trans[OF grows_trans[OF g this] Cons.IH[of "emit (TimeSleep 10) w1"]]
      show ?thesis using True ct None by simp
    qed
  qed
qed

lemma PORT_reconnect_task [simp]: "PORT (snd (reconnect_task nws debug w)) = PORT w"
proof (induction nws arbitrary: w)
  case Nil
  then show ?case by simp
next
  case (Cons nw nws)
  obtain r w1 where ct:
    "connect_to_targets nw debug (log_debug ConnectionMaintenance debug w) = (r, w1)" by force
  have "PORT w1 = PORT w"
    using PORT_connect_to_targets[of nw debug "log_debug ConnectionMaintenance debug w"] ct
    by simp
  then show ?case using ct Cons.IH[of "emit (TimeSleep 10) w1"]
    by (cases r) simp_all
qed

lemma grows_serve_forever:
  "grows (\<lambda>e. True) w (serve_forever acts debug alive w)"
proof (induction acts debug alive w rule: serve_forever.induct)
  case (1 debug alive w)
  then show ?case by (simp add: grows_refl)
next
  case (2 script nw cl acts debug alive w)
  have "grows (\<lambda>e. True) w (snd (client_connected script nw cl debug w))"
    unfolding client_connected_def
    by (rule grows_trans[OF grows_log_debug grows_handle_client]) simp
  from grows_trans[OF this 2] show ?case by simp
next
  case (3 nw acts debug alive w)
  show ?case
  proof (cases alive)
    case False
    with 3(2) show ?thesis by simp
  next
    case True
    obtain r w1 where rt: "reconnect_task [nw] debug w = (r, w1)" by force
    have g: "grows (\<lambda>e. True) w w1" using grows_reconnect_task[of w "[nw]" debug] rt by simp
    from grows_trans[OF g 3(1)[OF True rt[symmetric]]] True rt show ?thesis by simp
  qed
qed

subsection \<open>The config file and the initial registry\<close>

lemma concat_file_lines: "concat (file_lines cur t) = cur @ t"
  by (induction t arbitrary: cur) auto

lemma strip_empty_iff: "strip l = [] \<longleftrightarrow> (\<forall>c \<in> set l. py_isspace c)"
proof -
  have "strip l = [] \<longleftrightarrow> (\<forall>c \<in> set (dropWhile py_isspace l). py_isspace c)"
    by (simp add: strip_def dropWhile_eq_Nil_conv)
  also have "\<dots> \<longleftrightarrow> dropWhile py_isspace l = []"
  proof
    assume a: "\<forall>c \<in> set (dropWhile py_isspace l). py_isspace c"
    show "dropWhile py_isspace l = []"
    proof (rule ccontr)
      assume n: "dropWhile py_isspace l \<noteq> []"
      then have "\<not> py_isspace (hd (dropWhile py_isspace l))" by (rule hd_dropWhile)
      moreover have "hd (dropWhile py_isspace l) \<in> set (dropWhile py_isspace l)"
        using n by simp
      ultimately show False using a by blast
    qed
  next
    assume "dropWhile py_isspace l = []"
    then show "\<forall>c \<in> set (dropWhile py_isspace l). py_isspace c"
      by (metis empty_iff empty_set)
  qed
  also have "\<dots> \<longleftrightarrow> (\<forall>c \<in> set l. py_isspace c)"
    by (simp add: dropWhile_eq_Nil_conv)
  finally show ?thesis .
qed

lemma set_first_occurrences [simp]: "set (first_occurrences xs) = set xs"
  by (induction xs) auto

lemma distinct_first_occurrences [simp]: "distinct (first_occurrences xs)"
  by (induction xs) auto

lemma keys_dict_set_new:
  "k \<notin> fst ` set d \<Longrightarrow> map fst (dict_set d k v) = map fst d @ [k]"
  by (induction d) auto

lemma keys_foldl_dict_set:
  "map fst (foldl (\<lambda>d ip. dict_set d ip v) d ips) =
     map fst d @ filter (\<lambda>a. a \<notin> fst ` set d) (first_occurrences ips)"
proof (induction ips arbitrary: d)
  case Nil
  then show ?case by simp
next
  case (Cons ip ips)
  show ?case
  proof (cases "ip \<in> fst ` set d")
    case True
    then have k: "map fst (dict_set d ip v) = map fst d" by (rule keys_dict_set)
    then have s: "fst ` set (dict_set d ip v) = fst ` set d" by (metis list.set_map)
    have "filter (\<lambda>a. a \<notin> fst ` set d) (filter (\<lambda>y. y \<noteq> ip) (first_occurrences ips)) =
        filter (\<lambda>a. a \<notin> fst ` set d) (first_occurrences ips)"
      using True by (auto intro!: filter_cong)
    with True show ?thesis by (simp add: Cons.IH k s)
  next
    case False
    then have k: "map fst (dict_set d ip v) = map fst d @ [ip]" by (rule keys_dict_set_new)
    then have s: "fst ` set (dict_set d ip v) = insert ip (fst ` set d)"
      by (metis list.set_map set_append list.simps(15) Un_insert_right sup_bot.right_neutral
            empty_set)
    have "filter (\<lambda>a. a \<notin> insert ip (fst ` set d)) (first_occurrences ips) =
        filter (\<lambda>a. a \<notin> fst ` set d) (filter (\<lambda>y. y \<noteq> ip) (first_occurrences ips))"
      by (auto intro!: filter_cong)
    with False show ?thesis by (simp add: Cons.IH k s)
  qed
qed

lemma values_dict_set:
  "\<forall>p \<in> set d. snd p = v \<Longrightarrow> \<forall>p \<in> set (dict_set d k v). snd p = v"
  by (induction d) (force split: if_splits)+

lemma values_foldl_dict_set:
  "\<forall>p \<in> set d. snd p = v \<Longrightarrow> \<forall>p \<in> set (foldl (\<lambda>d ip. dict_set d ip v) d ips). snd p = v"
proof (induction ips arbitrary: d)
  case Nil
  then show ?case by simp
next
  case (Cons ip ips)
  have "\<forall>p \<in> set (dict_set d ip v). snd p = v"
    using Cons.prems by (rule values_dict_set)
  from Cons.IH[OF this] show ?case by simp
qed

lemma keys_init_targets: "map fst (init_targets ips) = first_occurrences ips"
  by (simp add: init_targets_def keys_foldl_dict_set)

lemma values_init_targets: "\<forall>p \<in> set (init_targets ips). snd p = None"
  unfolding init_targets_def by (rule values_foldl_dict_set) simp

lemma dict_get_init_targets: "a \<in> set ips \<Longrightarrow> dict_get (init_targets ips) a = Some None"
proof -
  assume "a \<in> set ips"
  then have "a \<in> fst ` set (init_targets ips)"
    by (metis keys_init_targets list.set_map set_first_occurrences)
  then obtain v where "map_of (init_targets ips) a = Some v"
    by (metis domD dom_map_of_conv_image_fst)
  moreover from this have "(a, v) \<in> set (init_targets ips)" by (rule map_of_SomeD)
  ultimately show ?thesis using values_init_targets by (force simp: dict_get_def)
qed

lemma count_list_filter:
  "count_list (filter P xs) s = (if P s then count_list xs s else 0)"
  by (induction xs) auto

subsection \<open>The UDP relay\<close>

lemma udp_emit_fields [simp]:
  "udp_trace (udp_emit e w) = udp_trace w @ [e]"
  "target_ips (udp_emit e w) = target_ips w"
  "udp_running (udp_emit e w) = udp_running w"
  "udp_PORT (udp_emit e w) = udp_PORT w"
  by (simp_all add: udp_emit_def)

lemma udp_log_debug_fields [simp]:
  "udp_trace (udp_log_debug m d w) = udp_trace w @ (if d then [Print m] else [])"
  "target_ips (udp_log_debug m d w) = target_ips w"
  "udp_running (udp_log_debug m d w) = udp_running w"
  "udp_PORT (udp_log_debug m d w) = udp_PORT w"
  by (simp_all add: udp_log_debug_def)

lemma udp_forward_data_fields [simp]:
  "fst (udp_forward_data nw data ip debug w) = None"
  "target_ips (snd (udp_forward_data nw data ip debug w)) = target_ips w"
  "udp_running (snd (udp_forward_data nw data ip debug w)) = udp_running w"
  "udp_PORT (snd (udp_forward_data nw data ip debug w)) = udp_PORT w"
  by (simp_all add: udp_forward_data_def Let_def split: option.splits)

lemma sends_udp_forward_data:
  "filter is_send (udp_trace (snd (udp_forward_data nw data ip debug w))) =
     filter is_send (udp_trace w) @ [SendTo ip (udp_PORT w) data]"
  by (simp add: udp_forward_data_def Let_def split: option.splits)

lemma udp_gather_forward:
  "fst (udp_gather (map (\<lambda>ip. udp_forward_data nw data ip debug) ips) w) = None
   \<and> udp_PORT (snd (udp_gather (map (\<lambda>ip. udp_forward_data nw data ip debug) ips) w)) = udp_PORT w
   \<and> filter is_send (udp_trace (snd (udp_gather (map (\<lambda>ip. udp_forward_data nw data ip debug) ips) w))) =
       filter is_send (udp_trace w) @ map (\<lambda>ip. SendTo ip (udp_PORT w) data) ips"
proof (induction ips arbitrary: w)
  case Nil
  then show ?case by simp
next
  case (Cons ip ips)
  obtain r w1 where f: "udp_forward_data nw data ip debug w = (r, w1)" by force
  have r: "r = None" using udp_forward_data_fields(1)[of nw data ip debug w] f by simp
  have p: "udp_PORT w1 = udp_PORT w" using udp_forward_data_fields(4)[of nw data ip debug w] f by simp
  have s: "filter is_send (udp_trace w1) = filter is_send (udp_trace w) @ [SendTo ip (udp_PORT w) data]"
    using sends_udp_forward_data[of nw data ip debug w] f by simp
  from Cons.IH[of w1] show ?case
    by (simp add: f r p s split: prod.splits)
qed

lemma udp_empty_datagram_ends_loop:
  "udp_running w \<Longrightarrow>
   udp_loop ((RecvReturns [] addr, nw) # rest) debug w =
     (LoopEnded, udp_emit (SockRecvFrom 4096) (udp_log_debug WaitingForData debug w))"
  by (simp add: Let_def)

lemma udp_undecodable_datagram_ends_loop:
  "udp_running w \<Longrightarrow> data \<noteq> [] \<Longrightarrow> \<not> utf8_valid data \<Longrightarrow>
   udp_loop ((RecvReturns data addr, nw) # rest) debug w =
     (LoopRaised (Error UnicodeDecodeError),
      udp_emit (SockRecvFrom 4096) (udp_log_debug WaitingForData debug w))"
  by (simp add: Let_def)

lemma udp_decodable_datagram_sent_to_all:
  assumes "udp_running w" and "data \<noteq> []" and "utf8_valid data"
  shows "\<exists>w2. udp_loop ((RecvReturns data addr, nw) # rest) debug w = udp_loop rest debug w2
    \<and> filter is_send (udp_trace w2) =
        filter is_send (udp_trace w) @ map (\<lambda>ip. SendTo ip (udp_PORT w) data) (target_ips w)"
proof -
  let ?w1 = "udp_emit (SockRecvFrom 4096) (udp_log_debug WaitingForData debug w)"
  let ?w1' = "udp_log_debug (ReceivedFrom addr data) debug ?w1"
  let ?g = "udp_gather (map (\<lambda>ip. udp_forward_data nw data ip debug) (target_ips ?w1)) ?w1'"
  obtain r w2 where g: "?g = (r, w2)" by force
  from udp_gather_forward[of nw data debug "target_ips ?w1" ?w1'] g
  have r: "r = None"
    and s: "filter is_send (udp_trace w2) =
        filter is_send (udp_trace ?w1') @ map (\<lambda>ip. SendTo ip (udp_PORT w) data) (target_ips w)"
    by simp_all
  have "udp_loop ((RecvReturns data addr, nw) # rest) debug w = udp_loop rest debug w2"
    using assms g r by (simp add: Let_def)
  moreover have "filter is_send (udp_trace ?w1') = filter is_send (udp_trace w)" by simp
  ultimately show ?thesis using s by auto
qed

section \<open>Forwarding\<close>

text \<open>
  C5. When no target is connected, \<open>forward_data\<close> creates no task at all and returns
  normally with the state it was given: the registry, the flags and the trace of
  everything written, flushed or printed are the same, for every chunk and with or
  without debugging. Nothing is kept of the chunk; the state has no place to keep it.
\<close>

theorem forward_data_nothing_connected:
  assumes "\<forall>p \<in> set (target_connections w). snd p = None"
  shows "forward_tasks nw data debug (target_connections w) = []
    \<and> forward_data nw data debug w = (None, w)"
  using assms by (simp add: forward_data_def forward_tasks_none)

theorem forward_data_nothing_connected_witness:
  "forward_data example_net [104, 105] True
      (example_world\<lparr>target_connections := [([49], None), ([50], None)]\<rparr>) =
     (None, example_world\<lparr>target_connections := [([49], None), ([50], None)]\<rparr>)"
  using forward_data_nothing_connected
    [of "example_world\<lparr>target_connections := [([49], None), ([50], None)]\<rparr>"
        example_net "[104, 105]" True]
  by simp

text \<open>
  C1. Let the write to a connected target \<open>T\<close> fail with \<open>ConnectionResetError\<close> or
  \<open>BrokenPipeError\<close>. Then T's own attempt (\<open>forward_to_target\<close>, in whatever state
  it runs) raises nothing and stores \<open>None\<close> under \<open>T\<close>, leaving every other key as
  it was. For the whole \<open>forward_data\<close> call: no error propagates, \<open>T\<close> is
  disconnected afterwards, the keys are the same, every other target whose own write
  did not fail in that way has the state it had, and when \<open>T\<close> is the only target
  whose write failed in that way the registry is the old one with \<open>T\<close> set to
  \<open>None\<close>.
\<close>

theorem forward_reset_disconnects_only_that_target:
  assumes "distinct (map fst (target_connections w))"
    and "dict_get (target_connections w) T = Some (Some c)"
    and "reset_class (write_outcome nw c data)"
  shows "fst (forward_to_target nw T c data debug w0) = None
    \<and> target_connections (snd (forward_to_target nw T c data debug w0)) =
        dict_set (target_connections w0) T None
    \<and> (\<forall>U. U \<noteq> T \<longrightarrow>
          dict_get (target_connections (snd (forward_to_target nw T c data debug w0))) U =
          dict_get (target_connections w0) U)
    \<and> (\<forall>e. fst (forward_data nw data debug w) \<noteq> Some (Error e))
    \<and> dict_get (target_connections (snd (forward_data nw data debug w))) T = Some None
    \<and> (\<forall>U. U \<noteq> T \<longrightarrow>
          (\<forall>c'. dict_get (target_connections w) U = Some (Some c') \<longrightarrow>
                \<not> reset_class (write_outcome nw c' data)) \<longrightarrow>
          dict_get (target_connections (snd (forward_data nw data debug w))) U =
          dict_get (target_connections w) U)
    \<and> map fst (target_connections (snd (forward_data nw data debug w))) =
        map fst (target_connections w)
    \<and> ((\<forall>U c'. U \<noteq> T \<longrightarrow> dict_get (target_connections w) U = Some (Some c') \<longrightarrow>
            \<not> reset_class (write_outcome nw c' data)) \<longrightarrow>
        target_connections (snd (forward_data nw data debug w)) =
          dict_set (target_connections w) T None)"
proof -
  have a: "fst (forward_to_target nw T c data debug w0) = None"
    using assms(3) by (auto simp: fst_forward_to_target reset_class_def)
  have b: "target_connections (snd (forward_to_target nw T c data debug w0)) =
        dict_set (target_connections w0) T None"
    using assms(3) by (simp add: tc_forward_to_target)
  have c: "\<forall>U. U \<noteq> T \<longrightarrow>
          dict_get (target_connections (snd (forward_to_target nw T c data debug w0))) U =
          dict_get (target_connections w0) U"
    by (simp add: b dict_get_dict_set)
  note tc = tc_forward_data[OF assms(1), of nw data debug]
  have d: "dict_get (target_connections (snd (forward_data nw data debug w))) T = Some None"
    using assms(2,3) by (simp add: tc dict_get_demote)
  have e: "\<forall>U. U \<noteq> T \<longrightarrow>
          (\<forall>c'. dict_get (target_connections w) U = Some (Some c') \<longrightarrow>
                \<not> reset_class (write_outcome nw c' data)) \<longrightarrow>
          dict_get (target_connections (snd (forward_data nw data debug w))) U =
          dict_get (target_connections w) U"
    by (auto simp: tc dict_get_demote split: option.splits)
  have f: "map fst (target_connections (snd (forward_data nw data debug w))) =
        map fst (target_connections w)"
    by (simp add: tc fst_demote)
  have g: "(\<forall>U c'. U \<noteq> T \<longrightarrow> dict_get (target_connections w) U = Some (Some c') \<longrightarrow>
            \<not> reset_class (write_outcome nw c' data)) \<longrightarrow>
        target_connections (snd (forward_data nw data debug w)) =
          dict_set (target_connections w) T None"
    using demote_only_one[OF assms] by (simp add: tc)
  from a b c d e f g fst_forward_data_no_error show ?thesis by blast
qed

theorem forward_reset_disconnects_only_that_target_witness:
  "distinct (map fst (target_connections example_world))
   \<and> dict_get (target_connections example_world) [49] = Some (Some (Conn 1 2))
   \<and> reset_class (write_outcome example_net (Conn 1 2) [104, 105])
   \<and> fst (forward_data example_net [104, 105] False example_world) = None
   \<and> target_connections (snd (forward_data example_net [104, 105] False example_world)) =
       [([49], None), ([50], Some (Conn 3 4)), ([51], None)]"
proof -
  have h1: "distinct (map fst (target_connections example_world))"
    by (simp add: example_world_def)
  have h2: "dict_get (target_connections example_world) [49] = Some (Some (Conn 1 2))"
    by (simp add: example_world_def dict_get_def)
  have h3: "reset_class (write_outcome example_net (Conn 1 2) [104, 105])"
    by (simp add: example_net_def write_outcome_def reset_class_def)
  have only: "\<forall>U c'. U \<noteq> [49] \<longrightarrow> dict_get (target_connections example_world) U = Some (Some c') \<longrightarrow>
      \<not> reset_class (write_outcome example_net c' [104, 105])"
    by (auto simp: example_world_def example_net_def dict_get_def write_outcome_def
          reset_class_def split: if_splits)
  from forward_reset_disconnects_only_that_target [OF h1 h2 h3, of False example_world] only
  have "target_connections (snd (forward_data example_net [104, 105] False example_world)) =
      dict_set (target_connections example_world) [49] None"
    by blast
  moreover have "fst (forward_data example_net [104, 105] False example_world) = None"
    by (simp add: forward_data_def forward_to_target_def example_world_def example_net_def
          Let_def emit_def log_debug_def set_target_def)
  ultimately show ?thesis using h1 h2 h3 by (simp add: example_world_def)
qed

text \<open>
  C4. Let the write to a connected target \<open>T\<close> fail with an error that is neither
  \<open>ConnectionResetError\<close> nor \<open>BrokenPipeError\<close>. Then T's attempt raises nothing,
  leaves the registry as it is and logs the failure; \<open>forward_data\<close> as a whole
  propagates no error and leaves \<open>T\<close> connected with the same handle; forwarding dials
  nothing; and the connect pass that runs next, on whatever network, does not dial
  \<open>T\<close>.
\<close>

theorem forward_other_error_keeps_target:
  assumes "distinct (map fst (target_connections w))"
    and "dict_get (target_connections w) T = Some (Some c)"
    and "write_outcome nw c data = Some (Error e)"
    and "e \<noteq> ConnectionResetError" and "e \<noteq> BrokenPipeError"
  shows "fst (forward_to_target nw T c data debug w0) = None
    \<and> target_connections (snd (forward_to_target nw T c data debug w0)) = target_connections w0
    \<and> Print (FailedToForward T (PORT w0) e)
        \<in> set (emitted w0 (snd (forward_to_target nw T c data True w0)))
    \<and> (\<forall>e'. fst (forward_data nw data debug w) \<noteq> Some (Error e'))
    \<and> dict_get (target_connections (snd (forward_data nw data debug w))) T = Some (Some c)
    \<and> list_all (\<lambda>ev. \<not> is_dial ev) (emitted w (snd (forward_data nw data debug w)))
    \<and> (\<forall>nw' debug' p t. OpenConnection T p t
          \<notin> set (emitted (snd (forward_data nw data debug w))
                 (snd (connect_to_targets nw' debug' (snd (forward_data nw data debug w))))))"
proof -
  have nr: "\<not> reset_class (write_outcome nw c data)"
    using assms(3-5) by (simp add: reset_class_def)
  have a: "fst (forward_to_target nw T c data debug w0) = None"
    using assms(3) by (simp add: fst_forward_to_target)
  have b: "target_connections (snd (forward_to_target nw T c data debug w0)) = target_connections w0"
    using nr by (simp add: tc_forward_to_target)
  note l = emitted_forward_to_target_other[OF assms(3-5), of T w0]
  have d: "dict_get (target_connections (snd (forward_data nw data debug w))) T = Some (Some c)"
    using assms(2) nr by (simp add: tc_forward_data[OF assms(1)] dict_get_demote)
  have e: "list_all (\<lambda>ev. \<not> is_dial ev) (emitted w (snd (forward_data nw data debug w)))"
    using growsD[OF grows_forward_data] by blast
  have f: "\<forall>nw' debug' p t. OpenConnection T p t
          \<notin> set (emitted (snd (forward_data nw data debug w))
                 (snd (connect_to_targets nw' debug' (snd (forward_data nw data debug w)))))"
    using connected_not_dialled[OF d] by blast
  from a b l d e f fst_forward_data_no_error show ?thesis by blast
qed

theorem forward_other_error_keeps_target_witness:
  "distinct (map fst (target_connections example_world))
   \<and> dict_get (target_connections example_world) [50] = Some (Some (Conn 3 4))
   \<and> write_outcome example_net (Conn 3 4) [104, 105] = Some (Error OSError)
   \<and> fst (forward_to_target example_net [50] (Conn 3 4) [104, 105] False example_world) = None
   \<and> dict_get (target_connections (snd (forward_data example_net [104, 105] False example_world)))
        [50] = Some (Some (Conn 3 4))"
proof -
  have h1: "distinct (map fst (target_connections example_world))"
    by (simp add: example_world_def)
  have h2: "dict_get (target_connections example_world) [50] = Some (Some (Conn 3 4))"
    by (simp add: example_world_def dict_get_def)
  have h3: "write_outcome example_net (Conn 3 4) [104, 105] = Some (Error OSError)"
    by (simp add: example_net_def write_outcome_def)
  have h4: "OSError \<noteq> ConnectionResetError" and h5: "OSError \<noteq> BrokenPipeError"
    by simp_all
  from forward_other_error_keeps_target
    [OF h1 h2 h3 h4 h5, where debug = False and ?w0.0 = example_world] h1 h2 h3
  show ?thesis by simp
qed

section \<open>Connecting\<close>

text \<open>
  C3. A connect attempt to a disconnected address \<open>ip\<close> asks the network once, with
  the timeout 5. If a connection comes back it is stored under \<open>ip\<close>, which is then
  connected. If the attempt raises an error (a timeout is \<open>TimeoutError\<close>, a refusal
  \<open>ConnectionRefusedError\<close>, and so on for every member of \<open>error\<close>), the registry
  is left as it is, so \<open>ip\<close> stays disconnected, and with debugging on the failure is
  printed. In no case does an error reach the caller; only the cancellation of the
  attempt, which is no error and leaves the registry as it is, is passed on.
\<close>

theorem connect_to_target_outcomes:
  assumes "dict_get (target_connections w) ip = Some None"
  shows "(\<forall>c. net_open_connection nw ip (PORT w) 5 = Inr c \<longrightarrow>
            fst (connect_to_target nw ip debug w) = None
          \<and> target_connections (snd (connect_to_target nw ip debug w)) =
              dict_set (target_connections w) ip (Some c)
          \<and> dict_get (target_connections (snd (connect_to_target nw ip debug w))) ip = Some (Some c))
    \<and> (\<forall>e. net_open_connection nw ip (PORT w) 5 = Inl (Error e) \<longrightarrow>
            fst (connect_to_target nw ip debug w) = None
          \<and> target_connections (snd (connect_to_target nw ip debug w)) = target_connections w
          \<and> dict_get (target_connections (snd (connect_to_target nw ip debug w))) ip = Some None
          \<and> emitted w (snd (connect_to_target nw ip True w)) =
              [OpenConnection ip (PORT w) 5, Print (FailedToConnect ip (PORT w) e)])
    \<and> (\<forall>e. fst (connect_to_target nw ip debug w) \<noteq> Some (Error e))
    \<and> hd (emitted w (snd (connect_to_target nw ip debug w))) = OpenConnection ip (PORT w) 5"
  using assms
  by (auto simp: fst_connect_to_target tc_connect_to_target dict_get_dict_set
        emitted_connect_to_target)

theorem connect_to_target_outcomes_witness:
  "dict_get (target_connections example_world) [51] = Some None
   \<and> net_open_connection example_net [51] (PORT example_world) 5 = Inr (Conn 5 6)
   \<and> fst (connect_to_target example_net [51] False example_world) = None
   \<and> dict_get (target_connections (snd (connect_to_target example_net [51] False example_world)))
        [51] = Some (Some (Conn 5 6))
   \<and> dict_get (target_connections (example_world\<lparr>target_connections := [([52], None)]\<rparr>)) [52]
        = Some None
   \<and> net_open_connection example_net [52] (PORT example_world) 5 = Inl (Error ConnectionRefusedError)
   \<and> connect_to_target example_net [52] False (example_world\<lparr>target_connections := [([52], None)]\<rparr>)
        = (None, example_world\<lparr>target_connections := [([52], None)],
                               trace := [OpenConnection [52] (Some 9000) 5]\<rparr>)"
proof -
  have h1: "dict_get (target_connections example_world) [51] = Some None"
    by (simp add: example_world_def dict_get_def)
  have o1: "net_open_connection example_net [51] (PORT example_world) 5 = Inr (Conn 5 6)"
    by (simp add: example_net_def)
  have h2: "dict_get (target_connections (example_world\<lparr>target_connections := [([52], None)]\<rparr>)) [52]
        = Some None"
    by (simp add: dict_get_def)
  have o2: "net_open_connection example_net [52] (PORT example_world) 5 =
      Inl (Error ConnectionRefusedError)"
    by (simp add: example_net_def)
  have ev: "connect_to_target example_net [52] False (example_world\<lparr>target_connections := [([52], None)]\<rparr>)
        = (None, example_world\<lparr>target_connections := [([52], None)],
                               trace := [OpenConnection [52] (Some 9000) 5]\<rparr>)"
    by (simp add: connect_to_target_def example_net_def example_world_def emit_def log_debug_def)
  from connect_to_target_outcomes [OF h1, of example_net False] o1 h1 h2 o2 ev
  show ?thesis by (simp add: dict_get_dict_set)
qed

text \<open>
  C2. In a connect pass, a target that is connected is skipped: it is not dialled and
  keeps its handle. A pass over a registry with every target connected returns
  normally with the state it was given, and no pass raises an error. Running the pass
  twice under the same network leaves the registry as running it once does; under any
  other network the second pass still leaves every target the first pass left
  connected as it is.
\<close>

theorem connect_pass_skips_connected:
  assumes "distinct (map fst (target_connections w))"
  shows "(\<forall>T c. dict_get (target_connections w) T = Some (Some c) \<longrightarrow>
            dict_get (target_connections (snd (connect_to_targets nw debug w))) T = Some (Some c)
          \<and> (\<forall>p t. OpenConnection T p t \<notin> set (emitted w (snd (connect_to_targets nw debug w)))))
    \<and> ((\<forall>p \<in> set (target_connections w). snd p \<noteq> None) \<longrightarrow>
          connect_to_targets nw debug w = (None, w))
    \<and> (\<forall>e. fst (connect_to_targets nw debug w) \<noteq> Some (Error e))
    \<and> map fst (target_connections (snd (connect_to_targets nw debug w))) =
        map fst (target_connections w)
    \<and> target_connections (snd (connect_to_targets nw debug (snd (connect_to_targets nw debug w)))) =
        target_connections (snd (connect_to_targets nw debug w))
    \<and> (\<forall>nw2 debug2 T c.
          dict_get (target_connections (snd (connect_to_targets nw debug w))) T = Some (Some c) \<longrightarrow>
          dict_get (target_connections
            (snd (connect_to_targets nw2 debug2 (snd (connect_to_targets nw debug w))))) T =
          Some (Some c))"
proof -
  note tc = tc_connect_to_targets[OF assms]
  have keys: "map fst (target_connections (snd (connect_to_targets nw' debug' w))) =
        map fst (target_connections w)" for nw' debug'
    by (simp add: tc fst_promote)
  have d1: "distinct (map fst (target_connections (snd (connect_to_targets nw debug w))))"
    using assms keys by simp
  have get: "dict_get (map (promote nw' port) d) T = Some (Some c)"
    if "dict_get d T = Some (Some c)" for nw' port d T c
    using that by (simp add: dict_get_promote)
  have a: "\<forall>T c. dict_get (target_connections w) T = Some (Some c) \<longrightarrow>
            dict_get (target_connections (snd (connect_to_targets nw debug w))) T = Some (Some c)
          \<and> (\<forall>p t. OpenConnection T p t \<notin> set (emitted w (snd (connect_to_targets nw debug w))))"
    using get connected_not_dialled by (simp add: tc)
  have skip: "connect_tasks nw debug d ips = []" if "\<forall>ip \<in> set ips. dict_get d ip \<noteq> Some None"
    for d ips using that by (induction ips) auto
  have b: "(\<forall>p \<in> set (target_connections w). snd p \<noteq> None) \<longrightarrow>
          connect_to_targets nw debug w = (None, w)"
  proof
    assume all: "\<forall>p \<in> set (target_connections w). snd p \<noteq> None"
    have "\<forall>ip \<in> set (map fst (target_connections w)). dict_get (target_connections w) ip \<noteq> Some None"
      using all by (auto simp: dict_get_def dest!: map_of_SomeD)
    from skip[OF this] show "connect_to_targets nw debug w = (None, w)"
      by (simp add: connect_to_targets_def)
  qed
  have e: "target_connections (snd (connect_to_targets nw debug (snd (connect_to_targets nw debug w)))) =
        target_connections (snd (connect_to_targets nw debug w))"
    by (simp add: tc_connect_to_targets[OF d1] tc promote_idem)
  have f: "\<forall>nw2 debug2 T c.
          dict_get (target_connections (snd (connect_to_targets nw debug w))) T = Some (Some c) \<longrightarrow>
          dict_get (target_connections
            (snd (connect_to_targets nw2 debug2 (snd (connect_to_targets nw debug w))))) T =
          Some (Some c)"
    using get by (simp add: tc_connect_to_targets[OF d1])
  from a b keys e f fst_connect_to_targets_no_error show ?thesis by blast
qed

theorem connect_pass_skips_connected_witness:
  "distinct (map fst (target_connections example_world))
   \<and> target_connections (snd (connect_to_targets example_net False example_world)) =
       [([49], Some (Conn 1 2)), ([50], Some (Conn 3 4)), ([51], Some (Conn 5 6))]
   \<and> target_connections (snd (connect_to_targets example_net False
        (snd (connect_to_targets example_net False example_world)))) =
       [([49], Some (Conn 1 2)), ([50], Some (Conn 3 4)), ([51], Some (Conn 5 6))]"
proof -
  have h1: "distinct (map fst (target_connections example_world))"
    by (simp add: example_world_def)
  have ev: "target_connections (snd (connect_to_targets example_net False example_world)) =
       [([49], Some (Conn 1 2)), ([50], Some (Conn 3 4)), ([51], Some (Conn 5 6))]"
    by (simp add: tc_connect_to_targets[OF h1])
       (simp add: example_world_def example_net_def promote_def)
  from connect_pass_skips_connected [OF h1, of example_net False] ev h1
  show ?thesis by simp
qed

section \<open>Shutdown\<close>

text \<open>
  C7. \<open>shutdown_server\<close> first sets \<open>running\<close> to \<open>False\<close>, and it is \<open>False\<close>
  while the targets are closed, however many of them have been closed so far. It then
  calls \<open>close\<close> on the writer of every connected target, once each and in the order
  of the dict: a close that raises is followed by the log line and by the closes of the
  targets after it. As many log lines are printed as closes raise.
\<close>

theorem shutdown_closes_every_connected_target:
  "running (shutdown_server nw w) = False
   \<and> (\<forall>k. running (close_targets nw (take k (target_connections w))
              (log_debug ShuttingDownServer True (w\<lparr>running := False\<rparr>))) = False)
   \<and> emitted w (shutdown_server nw w) =
       Print ShuttingDownServer
       # concat (map (close_events nw) (connected_writers (target_connections w)))
       @ [LoopStop, TimeSleep 3, SysExit]
   \<and> filter is_close (emitted w (shutdown_server nw w)) =
       map WriterClose (connected_writers (target_connections w))
   \<and> (\<forall>ip c. (ip, Some c) \<in> set (target_connections w) \<longrightarrow>
         WriterClose (writer c) \<in> set (emitted w (shutdown_server nw w)))
   \<and> length (filter (\<lambda>e. e = Print ErrorClosingConnection) (emitted w (shutdown_server nw w))) =
       length (filter (\<lambda>h. net_close nw h \<noteq> None) (connected_writers (target_connections w)))"
proof -
  have em: "emitted w (shutdown_server nw w) =
       Print ShuttingDownServer
       # concat (map (close_events nw) (connected_writers (target_connections w)))
       @ [LoopStop, TimeSleep 3, SysExit]"
    by (rule emitted_append) (simp add: shutdown_server_def Let_def trace_close_targets)
  have cl: "filter is_close (emitted w (shutdown_server nw w)) =
       map WriterClose (connected_writers (target_connections w))"
    by (simp add: em filter_is_close_events)
  have mem: "\<forall>ip c. (ip, Some c) \<in> set (target_connections w) \<longrightarrow>
         WriterClose (writer c) \<in> set (emitted w (shutdown_server nw w))"
  proof (intro allI impI)
    fix ip c assume "(ip, Some c) \<in> set (target_connections w)"
    then have "WriterClose (writer c) \<in> set (map WriterClose (connected_writers (target_connections w)))"
      by (simp add: writer_in_connected_writers)
    then have "WriterClose (writer c) \<in> set (filter is_close (emitted w (shutdown_server nw w)))"
      by (simp only: cl)
    then show "WriterClose (writer c) \<in> set (emitted w (shutdown_server nw w))" by simp
  qed
  have lg: "length (filter (\<lambda>e. e = Print ErrorClosingConnection) (emitted w (shutdown_server nw w))) =
       length (filter (\<lambda>h. net_close nw h \<noteq> None) (connected_writers (target_connections w)))"
    by (simp add: em filter_print_close_events)
  have r: "running (shutdown_server nw w) = False"
    by (simp add: shutdown_server_def Let_def)
  from r em cl mem lg show ?thesis by simp
qed

theorem shutdown_closes_every_connected_target_witness:
  "([49], Some (Conn 1 2)) \<in> set (target_connections example_world)
   \<and> net_close example_net 2 = Some RuntimeError
   \<and> ([50], Some (Conn 3 4)) \<in> set (target_connections example_world)
   \<and> WriterClose 4 \<in> set (emitted example_world (shutdown_server example_net example_world))
   \<and> emitted example_world (shutdown_server example_net example_world) =
       [Print ShuttingDownServer, WriterClose 2, Print ErrorClosingConnection, WriterClose 4,
        LoopStop, TimeSleep 3, SysExit]"
proof -
  have h1: "([49], Some (Conn 1 2)) \<in> set (target_connections example_world)"
    and h2: "([50], Some (Conn 3 4)) \<in> set (target_connections example_world)"
    and h3: "net_close example_net 2 = Some RuntimeError"
    by (simp_all add: example_world_def example_net_def)
  have cw: "connected_writers (target_connections example_world) = [2, 4]"
    by (simp add: example_world_def connected_writers_def)
  have ce: "close_events example_net 2 = [WriterClose 2, Print ErrorClosingConnection]"
    "close_events example_net 4 = [WriterClose 4]"
    by (simp_all add: close_events_def example_net_def)
  from shutdown_closes_every_connected_target [of example_net example_world] h1 h2 h3
  show ?thesis by (simp add: cw ce)
qed

section \<open>Client sessions\<close>

text \<open>
  C8. A session is either still suspended in a read, or it is over; and it is over
  exactly when its loop has ended, by whatever way. The loop ends when \<open>running\<close> is
  false, on an empty read, on a read that raises, on a chunk whose \<open>decode\<close> raises
  and when forwarding raises; a session whose reads so far include an empty one, one
  that raised or a chunk that does not decode is not suspended any more. Whenever the loop has ended, what follows the loop's own
  events in the trace is the log line of the \<open>except\<close> clause, if an error was
  caught, and then the \<open>finally\<close> block, which begins with \<open>close\<close> on the
  client's writer: the close is executed on every path out of the loop, also when what
  was raised is not an \<open>Exception\<close> and goes on to the caller.
\<close>

theorem client_handle_closed_on_every_exit:
  "(fst (handle_client script nw cl debug w) = SessionAwaiting
      \<longleftrightarrow> fst (client_loop script cl debug w) = LoopAwaiting)
   \<and> (fst (client_loop script cl debug w) \<noteq> LoopAwaiting \<longrightarrow>
         emitted w (snd (handle_client script nw cl debug w)) =
           emitted w (snd (client_loop script cl debug w))
           @ (case fst (client_loop script cl debug w) of
                LoopRaised (Error e) \<Rightarrow> if debug then [Print (ErrorHandlingClient e)] else []
              | _ \<Rightarrow> [])
           @ closing_events nw cl debug
       \<and> WriterClose (writer cl) \<in> set (emitted w (snd (handle_client script nw cl debug w))))
   \<and> (\<not> running w \<longrightarrow> fst (client_loop script cl debug w) = LoopEnded)
   \<and> ((\<exists>p \<in> set script. ends_session (fst p)) \<longrightarrow>
         fst (client_loop script cl debug w) \<noteq> LoopAwaiting)
   \<and> (running w \<longrightarrow> fst (client_loop ((ReadReturns [], nw1) # rest) cl debug w) = LoopEnded)
   \<and> (running w \<longrightarrow> fst (client_loop ((ReadRaises x, nw1) # rest) cl debug w) = LoopRaised x)
   \<and> (running w \<and> data \<noteq> [] \<and> \<not> utf8_valid data \<longrightarrow>
         fst (client_loop ((ReadReturns data, nw1) # rest) cl debug w) =
           LoopRaised (Error UnicodeDecodeError))
   \<and> (running w \<and> data \<noteq> [] \<and> utf8_valid data
        \<and> fst (forward_data nw1 data debug
                 (log_debug (ReceivedFromClient data) debug
                    (emit (ReaderRead (reader cl) 4096) w))) = Some x \<longrightarrow>
         fst (client_loop ((ReadReturns data, nw1) # rest) cl debug w) = LoopRaised x)"
proof -
  obtain lx wl where cl: "client_loop script cl debug w = (lx, wl)" by force
  have tl: "trace wl = trace w @ emitted w wl"
    using growsD[OF grows_client_loop[of w script cl debug]] cl by simp
  have a: "fst (handle_client script nw cl debug w) = SessionAwaiting
      \<longleftrightarrow> fst (client_loop script cl debug w) = LoopAwaiting"
    using fst_finally_close
    by (auto simp: handle_client_def cl split: loop_exit.splits exn.splits)
  have b: "emitted w (snd (handle_client script nw cl debug w)) =
           emitted w (snd (client_loop script cl debug w))
           @ (case fst (client_loop script cl debug w) of
                LoopRaised (Error e) \<Rightarrow> if debug then [Print (ErrorHandlingClient e)] else []
              | _ \<Rightarrow> [])
           @ closing_events nw cl debug" if "lx \<noteq> LoopAwaiting"
    by (rule emitted_append)
       (use that tl in \<open>auto simp: handle_client_def cl trace_finally_close
          split: loop_exit.splits exn.splits\<close>)
  have c: "WriterClose (writer cl) \<in> set (emitted w (snd (handle_client script nw cl debug w)))"
    if "lx \<noteq> LoopAwaiting"
    by (simp add: b[OF that]) (simp add: closing_events_def)
  have d: "\<not> running w \<longrightarrow> fst (client_loop script cl debug w) = LoopEnded"
    by (cases script) auto
  have e: "running w \<and> data \<noteq> [] \<and> utf8_valid data
        \<and> fst (forward_data nw1 data debug
                 (log_debug (ReceivedFromClient data) debug
                    (emit (ReaderRead (reader cl) 4096) w))) = Some x \<longrightarrow>
         fst (client_loop ((ReadReturns data, nw1) # rest) cl debug w) = LoopRaised x"
    by (auto simp: Let_def split: prod.splits option.splits)
  have f: "(\<exists>p \<in> set script. ends_session (fst p)) \<longrightarrow>
         fst (client_loop script cl debug w) \<noteq> LoopAwaiting"
    using client_loop_awaiting[of script cl debug w] by blast
  from a b c d e f show ?thesis by (simp add: cl Let_def)
qed

theorem client_handle_closed_on_every_exit_witness:
  "fst (client_loop [(ReadReturns [104, 105], example_net), (ReadReturns [], example_net)]
          (Conn 7 8) False example_world) = LoopEnded
   \<and> handle_client [(ReadReturns [104, 105], example_net), (ReadReturns [], example_net)]
        example_net (Conn 7 8) False example_world =
      (SessionOver None,
       example_world
         \<lparr>target_connections := [([49], None), ([50], Some (Conn 3 4)), ([51], None)],
          trace := [ReaderRead 7 4096, WriterWrite 2 [104, 105], WriterDrain 2,
                    WriterWrite 4 [104, 105], WriterDrain 4, ReaderRead 7 4096,
                    WriterClose 8, WriterWaitClosed 8]\<rparr>)
   \<and> WriterClose 8 \<in> set (emitted example_world
        (snd (handle_client [(ReadReturns [104, 105], example_net), (ReadReturns [], example_net)]
          example_net (Conn 7 8) False example_world)))
   \<and> handle_client [(ReadRaises (Error ConnectionResetError), example_net)]
        example_net (Conn 7 8) True example_world =
      (SessionOver None,
       example_world
         \<lparr>trace := [ReaderRead 7 4096, Print (ErrorHandlingClient ConnectionResetError),
                    WriterClose 8, WriterWaitClosed 8, Print ClientConnectionClosed]\<rparr>)
   \<and> handle_client [(ReadRaises CancelledError, example_net)]
        example_net (Conn 7 8) False example_world =
      (SessionOver (Some CancelledError),
       example_world\<lparr>trace := [ReaderRead 7 4096, WriterClose 8, WriterWaitClosed 8]\<rparr>)"
proof -
  have ev2: "handle_client [(ReadRaises (Error ConnectionResetError), example_net)]
        example_net (Conn 7 8) True example_world =
      (SessionOver None,
       example_world
         \<lparr>trace := [ReaderRead 7 4096, Print (ErrorHandlingClient ConnectionResetError),
                    WriterClose 8, WriterWaitClosed 8, Print ClientConnectionClosed]\<rparr>)"
    by (simp add: handle_client_def finally_close_def
          example_world_def example_net_def emit_def log_debug_def Let_def)
  have ev3: "handle_client [(ReadRaises CancelledError, example_net)]
        example_net (Conn 7 8) False example_world =
      (SessionOver (Some CancelledError),
       example_world\<lparr>trace := [ReaderRead 7 4096, WriterClose 8, WriterWaitClosed 8]\<rparr>)"
    by (simp add: handle_client_def finally_close_def
          example_world_def example_net_def emit_def log_debug_def Let_def)
  have ev: "handle_client [(ReadReturns [104, 105], example_net), (ReadReturns [], example_net)]
        example_net (Conn 7 8) False example_world =
      (SessionOver None,
       example_world
         \<lparr>target_connections := [([49], None), ([50], Some (Conn 3 4)), ([51], None)],
          trace := [ReaderRead 7 4096, WriterWrite 2 [104, 105], WriterDrain 2,
                    WriterWrite 4 [104, 105], WriterDrain 4, ReaderRead 7 4096,
                    WriterClose 8, WriterWaitClosed 8]\<rparr>)"
    by (simp add: handle_client_def finally_close_def forward_data_def forward_to_target_def
          example_world_def example_net_def emit_def log_debug_def set_target_def Let_def)
  have lp: "fst (client_loop [(ReadReturns [104, 105], example_net), (ReadReturns [], example_net)]
          (Conn 7 8) False example_world) = LoopEnded"
    by (simp add: forward_data_def forward_to_target_def
          example_world_def example_net_def emit_def log_debug_def set_target_def Let_def)
  have ne: "fst (client_loop [(ReadReturns [104, 105], example_net), (ReadReturns [], example_net)]
          (Conn 7 8) False example_world) \<noteq> LoopAwaiting"
    by (simp only: lp) simp
  from client_handle_closed_on_every_exit
    [of "[(ReadReturns [104, 105], example_net), (ReadReturns [], example_net)]"
        example_net "Conn 7 8" False example_world] ne
  have "WriterClose (writer (Conn 7 8)) \<in> set (emitted example_world
        (snd (handle_client [(ReadReturns [104, 105], example_net), (ReadReturns [], example_net)]
          example_net (Conn 7 8) False example_world)))"
    by blast
  then have mem: "WriterClose 8 \<in> set (emitted example_world
        (snd (handle_client [(ReadReturns [104, 105], example_net), (ReadReturns [], example_net)]
          example_net (Conn 7 8) False example_world)))"
    by (simp only: conn.sel)
  show ?thesis by (rule conjI[OF lp conjI[OF ev conjI[OF mem conjI[OF ev2 ev3]]]])
qed

section \<open>Startup\<close>



section \<open>The config file and the initial registry\<close>

text \<open>
  C9. For a config file that exists, \<open>read_ips_from_config\<close> returns the stripped
  lines of the file in their order, leaving out those that are empty once stripped,
  that is, the lines with nothing but whitespace; nothing else is checked. An address
  that stands on several lines is returned as often. \<open>main\<close> then builds the
  registry from that list: its keys are the addresses of the list, each once, in the
  order of their first occurrence, and every value is \<open>None\<close>; it is in this
  registry that \<open>start_server\<close> begins.
\<close>

theorem config_addresses_initialise_registry:
  assumes "fs (arg_config a) = Some text"
    and "lines = file_lines [] (universal_newlines text)"
    and "ips = filter (\<lambda>s. s \<noteq> []) (map strip lines)"
  shows "read_ips_from_config fs (arg_config a) = Inr ips
    \<and> concat lines = universal_newlines text
    \<and> (\<forall>l. strip l \<noteq> [] \<longleftrightarrow> (\<exists>c \<in> set l. \<not> py_isspace c))
    \<and> (\<forall>s \<in> set ips. s \<noteq> [])
    \<and> (\<forall>s. s \<noteq> [] \<longrightarrow> count_list ips s = count_list (map strip lines) s)
    \<and> map fst (init_targets ips) = first_occurrences ips
    \<and> distinct (map fst (init_targets ips))
    \<and> set (map fst (init_targets ips)) = set ips
    \<and> (\<forall>p \<in> set (init_targets ips). snd p = None)
    \<and> (\<forall>s \<in> set ips. dict_get (init_targets ips) s = Some None)
    \<and> main a fs nw nw1 acts w =
        start_server nw nw1 (arg_debug a) acts
          (emit InstallSigintHandler
             (w\<lparr>target_connections := init_targets ips, PORT := Some (arg_port a)\<rparr>))"
proof -
  have r: "read_ips_from_config fs (arg_config a) = Inr ips"
    using assms by (simp add: read_ips_from_config_def filter_map comp_def)
  have c: "concat lines = universal_newlines text"
    using assms(2) by (simp add: concat_file_lines)
  have s: "\<forall>l. strip l \<noteq> [] \<longleftrightarrow> (\<exists>c \<in> set l. \<not> py_isspace c)"
    by (simp add: strip_empty_iff)
  have n: "\<forall>s \<in> set ips. s \<noteq> []" using assms(3) by simp
  have d: "\<forall>s. s \<noteq> [] \<longrightarrow> count_list ips s = count_list (map strip lines) s"
    using assms(3) by (simp add: count_list_filter)
  have k: "map fst (init_targets ips) = first_occurrences ips" by (rule keys_init_targets)
  have m: "main a fs nw nw1 acts w =
        start_server nw nw1 (arg_debug a) acts
          (emit InstallSigintHandler
             (w\<lparr>target_connections := init_targets ips, PORT := Some (arg_port a)\<rparr>))"
    by (simp add: main_def r)
  from r c s n d k m values_init_targets dict_get_init_targets show ?thesis
    by (simp add: k)
qed

theorem config_addresses_initialise_registry_witness:
  "example_fs (arg_config example_args) = Some [49, 48, 10, 10, 32, 49, 49, 32, 13, 10, 49, 48]
   \<and> read_ips_from_config example_fs (arg_config example_args) =
       Inr [[49, 48], [49, 49], [49, 48]]
   \<and> init_targets [[49, 48], [49, 49], [49, 48]] = [([49, 48], None), ([49, 49], None)]
   \<and> map fst (init_targets [[49, 48], [49, 49], [49, 48]]) = [[49, 48], [49, 49]]"
proof -
  have h1: "example_fs (arg_config example_args) =
      Some [49, 48, 10, 10, 32, 49, 49, 32, 13, 10, 49, 48]"
    by (simp add: example_fs_def example_args_def)
  have h2: "[[49, 48, 10], [10], [32, 49, 49, 32, 10], [49, 48]] =
      file_lines [] (universal_newlines [49, 48, 10, 10, 32, 49, 49, 32, 13, 10, 49, 48])"
    by simp
  have h3: "[[49, 48], [49, 49], [49, 48]] =
      filter (\<lambda>s. s \<noteq> []) (map strip [[49, 48, 10], [10], [32, 49, 49, 32, 10], [49, 48::nat]])"
    by (simp add: strip_def py_isspace_def)
  have it: "init_targets [[49, 48], [49, 49], [49, 48::nat]] = [([49, 48], None), ([49, 49], None)]"
    by (simp add: init_targets_def)
  from config_addresses_initialise_registry
    [where fs = example_fs and a = example_args, OF h1 h2 h3]
  have "read_ips_from_config example_fs (arg_config example_args) =
      Inr [[49, 48], [49, 49], [49, 48]]"
    and "map fst (init_targets [[49, 48], [49, 49], [49, 48::nat]]) =
      first_occurrences [[49, 48], [49, 49], [49, 48]]"
    by blast+
  then show ?thesis using it h1 by simp
qed

section \<open>The UDP relay: datagrams\<close>

text \<open>
  C10. In the UDP relay an empty datagram ends the receive loop, whatever would come
  after it (\<open>udp_empty_datagram_ends_loop\<close>), and a datagram that decodes as UTF-8
  is sent once to every address of \<open>target_ips\<close>, in order
  (\<open>udp_decodable_datagram_sent_to_all\<close>). A datagram that is not empty and does
  not decode is another matter: the f-string handed to \<open>log_debug\<close> raises
  \<open>UnicodeDecodeError\<close> before anything is forwarded, also with debugging off, and
  the \<open>except\<close> clause ends the loop. With two targets and the one-byte datagram
  \<open>0xFF\<close> nothing is sent, and a datagram that follows it is never received; the
  datagram \<open>0x68\<close> alone is sent to both targets.
\<close>

theorem udp_undecodable_datagram_not_forwarded:
  "udp_handle_client [(RecvReturns [0xFF] [99], example_udp_net)] False example_udp_world =
     (SessionOver None, example_udp_world\<lparr>udp_trace := [SockRecvFrom 4096]\<rparr>)
   \<and> filter is_send (udp_trace (snd (udp_handle_client
        [(RecvReturns [0xFF] [99], example_udp_net)] False example_udp_world))) = []
   \<and> udp_handle_client
        [(RecvReturns [0xFF] [99], example_udp_net), (RecvReturns [0x68] [99], example_udp_net)]
        False example_udp_world =
     (SessionOver None, example_udp_world\<lparr>udp_trace := [SockRecvFrom 4096]\<rparr>)
   \<and> udp_handle_client [(RecvReturns [0x68] [99], example_udp_net)] False example_udp_world =
     (SessionAwaiting,
      example_udp_world
        \<lparr>udp_trace := [SockRecvFrom 4096, SendTo [49] (Some 9000) [0x68],
                        SendTo [50] (Some 9000) [0x68], SockRecvFrom 4096]\<rparr>)"
  by (simp add: udp_handle_client_def udp_forward_data_def udp_emit_def udp_log_debug_def
        example_udp_world_def example_udp_net_def Let_def)

end
